theory Spec2Isabelle
  imports Main
begin

section \<open>The building tools of the Minecraft MCP server\<close>

text \<open>
  A shallow embedding of \<^verbatim>\<open>src/tools/building.ts\<close>: the helper \<^verbatim>\<open>placeBlockAt\<close> and the
  five tool handlers registered by \<^verbatim>\<open>registerBuildingTools\<close> (build-wall, build-floor,
  build-box, fill-area, clear-area).

  Numbers are modelled as \<^typ>\<open>int\<close>: the coordinates and sizes the tools are meant for are
  whole numbers, on which JavaScript's arithmetic, \<^verbatim>\<open>Math.floor(n / 2)\<close>, \<^verbatim>\<open>Math.min\<close> and
  \<^verbatim>\<open>Math.max\<close> agree with \<open>+\<close>, \<open>*\<close>, \<open>div 2\<close>, \<open>min\<close> and \<open>max\<close> on \<^typ>\<open>int\<close> (as long as
  they stay below \<open>2^53\<close> in magnitude). Fractional arguments are outside the model.
\<close>

subsection \<open>Vectors, blocks, goals and errors\<close>

datatype vec3 = Vec3 (vx: int) (vy: int) (vz: int)

definition plus :: "vec3 \<Rightarrow> vec3 \<Rightarrow> vec3" where
  "plus a b = Vec3 (vx a + vx b) (vy a + vy b) (vz a + vz b)"

definition scaled :: "vec3 \<Rightarrow> int \<Rightarrow> vec3" where
  "scaled a k = Vec3 (vx a * k) (vy a * k) (vz a * k)"

text \<open>What \<^verbatim>\<open>bot.blockAt\<close> returns when it returns an object: the code reads only \<^verbatim>\<open>name\<close>.\<close>

record block =
  name :: string
  position :: vec3

datatype goal = GoalNear int int int int

datatype error = Error string

subsection \<open>The bot\<close>

text \<open>
  The bot (\<^verbatim>\<open>bot: any\<close>) is an external, stateful object. Each of its methods that the
  building tools call is a function of the bot's state \<open>'w\<close> that returns a value or raises
  (\<open>Inl\<close>), together with the state afterwards. Nothing is assumed about how the methods
  behave: every method may raise and may change the state.
\<close>

record 'w bot =
  blockAt :: "vec3 \<Rightarrow> 'w \<Rightarrow> (error + block option) \<times> 'w"
  canSeeBlock :: "block \<Rightarrow> 'w \<Rightarrow> (error + bool) \<times> 'w"
  canDigBlock :: "block \<Rightarrow> 'w \<Rightarrow> (error + bool) \<times> 'w"
  goto :: "goal \<Rightarrow> 'w \<Rightarrow> (error + unit) \<times> 'w"
  lookAt :: "vec3 \<Rightarrow> bool \<Rightarrow> 'w \<Rightarrow> (error + unit) \<times> 'w"
  placeBlock :: "block \<Rightarrow> vec3 \<Rightarrow> 'w \<Rightarrow> (error + unit) \<times> 'w"
  dig :: "block \<Rightarrow> 'w \<Rightarrow> (error + unit) \<times> 'w"

text \<open>
  The calls made on the bot are logged, each with what came back, in the order they are
  made. The log is not in the source: it records the source's calls so that theorems can
  speak about which actions were issued.
\<close>

datatype call =
    BlockAt vec3
  | CanSeeBlock block
  | CanDigBlock block
  | Goto goal
  | LookAt vec3 bool
  | PlaceBlock block vec3
  | Dig block

datatype outcome =
    Block "block option"
  | Bool bool
  | Done
  | Thrown error

type_synonym event = "call \<times> outcome"

record 'w exec =
  world :: 'w
  trace :: "event list"

type_synonym ('w, 'a) action = "'w exec \<Rightarrow> (error + 'a) \<times> 'w exec"

definition invoke ::
  "call \<Rightarrow> ('a \<Rightarrow> outcome) \<Rightarrow> ('w \<Rightarrow> (error + 'a) \<times> 'w) \<Rightarrow> ('w, 'a) action" where
  "invoke c shown f e =
     (case f (world e) of
        (Inl err, w') \<Rightarrow> (Inl err, \<lparr>world = w', trace = trace e @ [(c, Thrown err)]\<rparr>)
      | (Inr a, w') \<Rightarrow> (Inr a, \<lparr>world = w', trace = trace e @ [(c, shown a)]\<rparr>))"

definition bot_blockAt :: "'w bot \<Rightarrow> vec3 \<Rightarrow> ('w, block option) action" where
  "bot_blockAt bot' p = invoke (BlockAt p) Block (blockAt bot' p)"

definition bot_canSeeBlock :: "'w bot \<Rightarrow> block \<Rightarrow> ('w, bool) action" where
  "bot_canSeeBlock bot' b = invoke (CanSeeBlock b) Bool (canSeeBlock bot' b)"

definition bot_canDigBlock :: "'w bot \<Rightarrow> block \<Rightarrow> ('w, bool) action" where
  "bot_canDigBlock bot' b = invoke (CanDigBlock b) Bool (canDigBlock bot' b)"

definition bot_goto :: "'w bot \<Rightarrow> goal \<Rightarrow> ('w, unit) action" where
  "bot_goto bot' g = invoke (Goto g) (\<lambda>_. Done) (goto bot' g)"

definition bot_lookAt :: "'w bot \<Rightarrow> vec3 \<Rightarrow> bool \<Rightarrow> ('w, unit) action" where
  "bot_lookAt bot' p force = invoke (LookAt p force) (\<lambda>_. Done) (lookAt bot' p force)"

definition bot_placeBlock :: "'w bot \<Rightarrow> block \<Rightarrow> vec3 \<Rightarrow> ('w, unit) action" where
  "bot_placeBlock bot' b v = invoke (PlaceBlock b v) (\<lambda>_. Done) (placeBlock bot' b v)"

definition bot_dig :: "'w bot \<Rightarrow> block \<Rightarrow> ('w, unit) action" where
  "bot_dig bot' b = invoke (Dig b) (\<lambda>_. Done) (dig bot' b)"

subsection \<open>Sequencing, \<^verbatim>\<open>await\<close> and \<^verbatim>\<open>try ... catch\<close>\<close>

definition resolve :: "'a \<Rightarrow> ('w, 'a) action" where
  "resolve a e = (Inr a, e)"

text \<open>\<open>await m k\<close>: run \<open>m\<close>; if it raises, so does the whole; otherwise go on with \<open>k\<close>.\<close>

definition await :: "('w, 'a) action \<Rightarrow> ('a \<Rightarrow> ('w, 'b) action) \<Rightarrow> ('w, 'b) action" where
  "await m k e = (case m e of (Inl err, e') \<Rightarrow> (Inl err, e') | (Inr a, e') \<Rightarrow> k a e')"

definition tryCatch :: "('w, 'a) action \<Rightarrow> (error \<Rightarrow> ('w, 'a) action) \<Rightarrow> ('w, 'a) action" where
  "tryCatch m handler e = (case m e of (Inl err, e') \<Rightarrow> handler err e' | (Inr a, e') \<Rightarrow> (Inr a, e'))"

subsection \<open>\<^verbatim>\<open>placeBlockAt\<close>\<close>

text \<open>\<^verbatim>\<open>b && b.name !== 'air'\<close> for a block or \<^verbatim>\<open>null\<close>.\<close>

definition nonAir :: "block option \<Rightarrow> bool" where
  "nonAir b = (case b of None \<Rightarrow> False | Some blk \<Rightarrow> name blk \<noteq> ''air'')"

record face =
  direction :: string
  vector :: vec3

definition faces :: "face list" where
  "faces =
    [\<lparr>direction = ''down'', vector = Vec3 0 (-1) 0\<rparr>,
     \<lparr>direction = ''north'', vector = Vec3 0 0 (-1)\<rparr>,
     \<lparr>direction = ''south'', vector = Vec3 0 0 1\<rparr>,
     \<lparr>direction = ''east'', vector = Vec3 1 0 0\<rparr>,
     \<lparr>direction = ''west'', vector = Vec3 (-1) 0 0\<rparr>,
     \<lparr>direction = ''up'', vector = Vec3 0 1 0\<rparr>]"

text \<open>How one run of the body of \<^verbatim>\<open>for (const face of faces)\<close> ends when it does not raise.\<close>

datatype flow = Return bool | Continue

text \<open>The loop body (lines 62 to 79) for one face.\<close>

definition tryFace :: "'w bot \<Rightarrow> vec3 \<Rightarrow> face \<Rightarrow> ('w, flow) action" where
  "tryFace bot' placePos face =
     (let referencePos = plus placePos (vector face) in
      await (bot_blockAt bot' referencePos) (\<lambda>referenceBlock.
        case referenceBlock of
          None \<Rightarrow> resolve Continue
        | Some blk \<Rightarrow>
            if name blk \<noteq> ''air'' then
              await (bot_canSeeBlock bot' blk) (\<lambda>visible.
              await (if \<not> visible
                     then bot_goto bot' (GoalNear (vx referencePos) (vy referencePos) (vz referencePos) 2)
                     else resolve ()) (\<lambda>_.
              await (bot_lookAt bot' placePos True) (\<lambda>_.
              tryCatch
                (await (bot_placeBlock bot' blk (scaled (vector face) (-1))) (\<lambda>_. resolve (Return True)))
                (\<lambda>placeError. resolve Continue))))
            else resolve Continue))"

text \<open>The loop over the faces, in the order of the list.\<close>

fun tryFaces :: "'w bot \<Rightarrow> vec3 \<Rightarrow> face list \<Rightarrow> ('w, flow) action" where
  "tryFaces bot' placePos [] e = (Inr Continue, e)"
| "tryFaces bot' placePos (face # rest) e =
     (case tryFace bot' placePos face e of
        (Inl err, e') \<Rightarrow> (Inl err, e')
      | (Inr (Return b), e') \<Rightarrow> (Inr (Return b), e')
      | (Inr Continue, e') \<Rightarrow> tryFaces bot' placePos rest e')"

text \<open>The body of the outer \<^verbatim>\<open>try\<close> (lines 44 to 82).\<close>

definition placeBlockAt_body :: "'w bot \<Rightarrow> int \<Rightarrow> int \<Rightarrow> int \<Rightarrow> string \<Rightarrow> ('w, bool) action" where
  "placeBlockAt_body bot' x y z blockType =
     (let placePos = Vec3 x y z in
      await (bot_blockAt bot' placePos) (\<lambda>blockAtPos.
        if nonAir blockAtPos then resolve False
        else await (tryFaces bot' placePos faces) (\<lambda>fl.
          case fl of Return b \<Rightarrow> resolve b | Continue \<Rightarrow> resolve False)))"

text \<open>\<^verbatim>\<open>placeBlockAt\<close>: the body, and \<^verbatim>\<open>catch (error) { return false; }\<close> around it.\<close>

definition placeBlockAt :: "'w bot \<Rightarrow> int \<Rightarrow> int \<Rightarrow> int \<Rightarrow> string \<Rightarrow> 'w exec \<Rightarrow> bool \<times> 'w exec" where
  "placeBlockAt bot' x y z blockType e =
     (case placeBlockAt_body bot' x y z blockType e of
        (Inl err, e') \<Rightarrow> (False, e')
      | (Inr success, e') \<Rightarrow> (success, e'))"

subsection \<open>Responses\<close>

text \<open>An \<^verbatim>\<open>McpResponse\<close>: the texts of its content items, and the optional error flag.\<close>

record McpResponse =
  content :: "string list"
  isError :: "bool option"

definition createResponse :: "string \<Rightarrow> McpResponse" where
  "createResponse text = \<lparr>content = [text], isError = None\<rparr>"

definition createErrorResponse :: "error \<Rightarrow> McpResponse" where
  "createErrorResponse err =
     (case err of Error errorMessage \<Rightarrow>
        \<lparr>content = [''Failed: '' @ errorMessage], isError = Some True\<rparr>)"

text \<open>What a template literal prints for a whole number: its decimal digits, after a minus sign if negative.\<close>

function digits :: "nat \<Rightarrow> string" where
  "digits n = (if n < 10 then [''0123456789'' ! n] else digits (n div 10) @ [''0123456789'' ! (n mod 10)])"
  by pat_completeness auto
termination
  by (relation "measure id") auto

definition toString :: "int \<Rightarrow> string" where
  "toString n = (if n < 0 then CHR ''-'' # digits (nat (- n)) else digits (nat n))"

subsection \<open>Counting loops\<close>

text \<open>\<^verbatim>\<open>for (let i = lo; i < hi; i++) body\<close> and \<^verbatim>\<open>for (let i = lo; i <= hi; i++) body\<close>.\<close>

function forLt :: "int \<Rightarrow> int \<Rightarrow> (int \<Rightarrow> 's \<Rightarrow> 's) \<Rightarrow> 's \<Rightarrow> 's" where
  "forLt i hi body s = (if i < hi then forLt (i + 1) hi body (body i s) else s)"
  by pat_completeness auto
termination
  by (relation "measure (\<lambda>(i, hi, body, s). nat (hi - i))") auto

function forLe :: "int \<Rightarrow> int \<Rightarrow> (int \<Rightarrow> 's \<Rightarrow> 's) \<Rightarrow> 's \<Rightarrow> 's" where
  "forLe i hi body s = (if i \<le> hi then forLe (i + 1) hi body (body i s) else s)"
  by pat_completeness auto
termination
  by (relation "measure (\<lambda>(i, hi, body, s). nat (hi + 1 - i))") auto

subsection \<open>The placement tools\<close>

text \<open>
  The variables of a handler while its loops run: the bot's state and log, the counter
  \<^verbatim>\<open>blocksFailed\<close>, and (not in the source) the list of the coordinates processed so far, in
  order: those \<^verbatim>\<open>placeBlockAt\<close> has been called with in a placement handler, those whose
  \<^verbatim>\<open>try\<close> block has been run in clear-area. The placement handlers add \<^verbatim>\<open>blocksPlaced\<close>,
  clear-area adds \<^verbatim>\<open>blocksDug\<close>.
\<close>

record 'w vars =
  agent :: "'w exec"
  blocksFailed :: int
  processed :: "vec3 list"

record 'w built = "'w vars" +
  blocksPlaced :: int

record 'w cleared = "'w vars" +
  blocksDug :: int

definition start :: "'w exec \<Rightarrow> 'w built" where
  "start e = \<lparr>agent = e, blocksFailed = 0, processed = [], blocksPlaced = 0\<rparr>"

text \<open>\<^verbatim>\<open>s || 'default'\<close> for an optional string: the empty string is falsy too.\<close>

definition orDefault :: "string option \<Rightarrow> string" where
  "orDefault s = (case s of None \<Rightarrow> ''default'' | Some v \<Rightarrow> if v = [] then ''default'' else v)"

text \<open>
  The statements every placement loop runs for one coordinate:
  \<^verbatim>\<open>const success = await placeBlockAt(bot, x, y, z, ...); if (success) blocksPlaced++; else blocksFailed++;\<close>
\<close>

definition placeAndCount :: "'w bot \<Rightarrow> int \<Rightarrow> int \<Rightarrow> int \<Rightarrow> string \<Rightarrow> 'w built \<Rightarrow> 'w built" where
  "placeAndCount bot' x y z blockType t =
     (case placeBlockAt bot' x y z blockType (agent t) of
        (success, e') \<Rightarrow>
          if success
          then \<lparr>agent = e', blocksFailed = blocksFailed t,
                processed = processed t @ [Vec3 x y z], blocksPlaced = blocksPlaced t + 1\<rparr>
          else \<lparr>agent = e', blocksFailed = blocksFailed t + 1,
                processed = processed t @ [Vec3 x y z], blocksPlaced = blocksPlaced t\<rparr>)"

text \<open>
  The handlers return the response together with the final values of the variables above.
  Inside a handler's \<^verbatim>\<open>try\<close> nothing raises (\<^verbatim>\<open>placeBlockAt\<close> catches everything, the rest
  is arithmetic), so its \<^verbatim>\<open>catch\<close> with \<^verbatim>\<open>createErrorResponse\<close> is never entered.
\<close>

text \<open>An optional argument with a default (\<^verbatim>\<open>z.number().optional().default(1)\<close>).\<close>

definition defaultTo :: "'a \<Rightarrow> 'a option \<Rightarrow> 'a" where
  "defaultTo d v = (case v of None \<Rightarrow> d | Some a \<Rightarrow> a)"

datatype compass = North | South | East | West

definition compassName :: "compass \<Rightarrow> string" where
  "compassName d = (case d of North \<Rightarrow> ''north'' | South \<Rightarrow> ''south'' | East \<Rightarrow> ''east'' | West \<Rightarrow> ''west'')"

definition deltaX :: "compass \<Rightarrow> int" where
  "deltaX d = (case d of North \<Rightarrow> 0 | South \<Rightarrow> 0 | East \<Rightarrow> 1 | West \<Rightarrow> -1)"

definition deltaZ :: "compass \<Rightarrow> int" where
  "deltaZ d = (case d of North \<Rightarrow> -1 | South \<Rightarrow> 1 | East \<Rightarrow> 0 | West \<Rightarrow> 0)"

definition buildWall ::
  "'w bot \<Rightarrow> int \<Rightarrow> int \<Rightarrow> int \<Rightarrow> compass \<Rightarrow> int \<Rightarrow> int \<Rightarrow> int option \<Rightarrow> string option \<Rightarrow>
   'w exec \<Rightarrow> McpResponse \<times> 'w built" where
  "buildWall bot' startX startY startZ direction' length' height thickness' material e =
     (let thickness = defaultTo 1 thickness';
          vars = forLt 0 length' (\<lambda>l.
                forLt 0 height (\<lambda>h.
                  forLt 0 thickness (\<lambda>t.
                    placeAndCount bot'
                      (startX + deltaX direction' * l + deltaZ direction' * t)
                      (startY + h)
                      (startZ + deltaZ direction' * l + deltaX direction' * t)
                      (orDefault material)))) (start e);
          totalBlocks = length' * height * thickness
      in (createResponse
            (''Wall building completed! Built a '' @ toString length' @ ''x'' @ toString height @ ''x'' @
             toString thickness @ '' wall facing '' @ compassName direction' @ ''. '' @
             ''Placed '' @ toString (blocksPlaced vars) @ ''/'' @ toString totalBlocks @ '' blocks. '' @
             toString (blocksFailed vars) @ '' blocks failed.''), vars))"

definition buildFloor ::
  "'w bot \<Rightarrow> int \<Rightarrow> int \<Rightarrow> int \<Rightarrow> int \<Rightarrow> int \<Rightarrow> string option \<Rightarrow> 'w exec \<Rightarrow> McpResponse \<times> 'w built" where
  "buildFloor bot' centerX centerY centerZ width length' blockType e =
     (let halfWidth = width div 2;
          halfLength = length' div 2;
          vars = forLe (centerX - halfWidth) (centerX + halfWidth) (\<lambda>x.
                forLe (centerZ - halfLength) (centerZ + halfLength) (\<lambda>z.
                  placeAndCount bot' x centerY z (orDefault blockType))) (start e);
          totalBlocks = width * length'
      in (createResponse
            (''Floor building completed! Placed '' @ toString (blocksPlaced vars) @ ''/'' @
             toString totalBlocks @ '' blocks. '' @
             toString (blocksFailed vars) @ '' blocks failed (already occupied or no support).''), vars))"

definition buildBox ::
  "'w bot \<Rightarrow> int \<Rightarrow> int \<Rightarrow> int \<Rightarrow> int \<Rightarrow> int \<Rightarrow> int \<Rightarrow> string option \<Rightarrow> 'w exec \<Rightarrow> McpResponse \<times> 'w built" where
  "buildBox bot' x1 y1 z1 x2 y2 z2 blockType e =
     (let minX = min x1 x2; maxX = max x1 x2;
          minY = min y1 y2; maxY = max y1 y2;
          minZ = min z1 z2; maxZ = max z1 z2;
          vars = forLe minX maxX (\<lambda>x.
                forLe minY maxY (\<lambda>y.
                  forLe minZ maxZ (\<lambda>z.
                    let isEdge = (x = minX \<or> x = maxX \<or> y = minY \<or> y = maxY \<or> z = minZ \<or> z = maxZ)
                    in if isEdge then placeAndCount bot' x y z (orDefault blockType) else id))) (start e)
      in (createResponse
            (''Box building completed! Placed '' @ toString (blocksPlaced vars) @ '' blocks. '' @
             toString (blocksFailed vars) @ '' blocks failed (already occupied or no support).''), vars))"

definition fillArea ::
  "'w bot \<Rightarrow> int \<Rightarrow> int \<Rightarrow> int \<Rightarrow> int \<Rightarrow> int \<Rightarrow> int \<Rightarrow> string option \<Rightarrow> 'w exec \<Rightarrow> McpResponse \<times> 'w built" where
  "fillArea bot' x1 y1 z1 x2 y2 z2 blockType e =
     (let minX = min x1 x2; maxX = max x1 x2;
          minY = min y1 y2; maxY = max y1 y2;
          minZ = min z1 z2; maxZ = max z1 z2;
          vars = forLe minX maxX (\<lambda>x.
                forLe minY maxY (\<lambda>y.
                  forLe minZ maxZ (\<lambda>z.
                    placeAndCount bot' x y z (orDefault blockType)))) (start e);
          totalBlocks = (maxX - minX + 1) * (maxY - minY + 1) * (maxZ - minZ + 1)
      in (createResponse
            (''Area filling completed! Placed '' @ toString (blocksPlaced vars) @ ''/'' @
             toString totalBlocks @ '' blocks. '' @
             toString (blocksFailed vars) @ '' blocks failed (already occupied or no support).''), vars))"

subsection \<open>clear-area\<close>

text \<open>
  The \<^verbatim>\<open>try\<close> block of the loop body (lines 324 to 335). It yields \<open>True\<close> when it reached
  \<^verbatim>\<open>blocksDug++\<close> and \<open>False\<close> when the block was \<^verbatim>\<open>null\<close> or air. In
  \<^verbatim>\<open>!bot.canDigBlock(block) || !bot.canSeeBlock(block)\<close> the second call is made only when the
  first returned true.
\<close>

definition digAt :: "'w bot \<Rightarrow> int \<Rightarrow> int \<Rightarrow> int \<Rightarrow> ('w, bool) action" where
  "digAt bot' x y z =
     (let blockPos = Vec3 x y z in
      await (bot_blockAt bot' blockPos) (\<lambda>block.
        case block of
          None \<Rightarrow> resolve False
        | Some blk \<Rightarrow>
            if name blk \<noteq> ''air'' then
              await (bot_canDigBlock bot' blk) (\<lambda>canDig.
              await (if \<not> canDig then resolve True
                     else await (bot_canSeeBlock bot' blk) (\<lambda>canSee. resolve (\<not> canSee))) (\<lambda>mustMove.
              await (if mustMove then bot_goto bot' (GoalNear x y z 2) else resolve ()) (\<lambda>_.
              await (bot_dig bot' blk) (\<lambda>_. resolve True))))
            else resolve False))"

text \<open>The loop body: the \<^verbatim>\<open>try\<close> block, and \<^verbatim>\<open>catch (error) { blocksFailed++; }\<close>.\<close>

definition digAndCount :: "'w bot \<Rightarrow> int \<Rightarrow> int \<Rightarrow> int \<Rightarrow> 'w cleared \<Rightarrow> 'w cleared" where
  "digAndCount bot' x y z t =
     (case digAt bot' x y z (agent t) of
        (Inl err, e') \<Rightarrow>
          \<lparr>agent = e', blocksFailed = blocksFailed t + 1,
           processed = processed t @ [Vec3 x y z], blocksDug = blocksDug t\<rparr>
      | (Inr dug, e') \<Rightarrow>
          \<lparr>agent = e', blocksFailed = blocksFailed t,
           processed = processed t @ [Vec3 x y z],
           blocksDug = (if dug then blocksDug t + 1 else blocksDug t)\<rparr>)"

definition clearArea ::
  "'w bot \<Rightarrow> int \<Rightarrow> int \<Rightarrow> int \<Rightarrow> int \<Rightarrow> int \<Rightarrow> int \<Rightarrow> 'w exec \<Rightarrow> McpResponse \<times> 'w cleared" where
  "clearArea bot' x1 y1 z1 x2 y2 z2 e =
     (let minX = min x1 x2; maxX = max x1 x2;
          minY = min y1 y2; maxY = max y1 y2;
          minZ = min z1 z2; maxZ = max z1 z2;
          vars = forLe minX maxX (\<lambda>x.
                   forLe minY maxY (\<lambda>y.
                     forLe minZ maxZ (\<lambda>z.
                       digAndCount bot' x y z)))
                   \<lparr>agent = e, blocksFailed = 0, processed = [], blocksDug = 0\<rparr>
      in (createResponse
            (''Area clearing completed! Dug '' @ toString (blocksDug vars) @ '' blocks. '' @
             toString (blocksFailed vars) @ '' blocks failed to dig.''), vars))"

subsection \<open>A test world\<close>

text \<open>
  A small bot to run the tools on: a world of stone blocks in air. A block at a position
  listed in \<open>hidden\<close> is not seen, no path leads near a position listed in \<open>blocked\<close>
  (\<^verbatim>\<open>goto\<close> raises), and placing against or digging a block at a position listed in
  \<open>refused\<close> raises. Placing adds a stone block, digging removes one.
\<close>

record testWorld =
  solids :: "vec3 list"
  hidden :: "vec3 list"
  blocked :: "vec3 list"
  refused :: "vec3 list"

definition testBot :: "testWorld bot" where
  "testBot =
    \<lparr>blockAt = (\<lambda>p w.
       (Inr (Some \<lparr>name = (if p \<in> set (solids w) then ''stone'' else ''air''), position = p\<rparr>), w)),
     canSeeBlock = (\<lambda>b w. (Inr (position b \<notin> set (hidden w)), w)),
     canDigBlock = (\<lambda>b w. (Inr True, w)),
     goto = (\<lambda>g w. case g of GoalNear x y z r \<Rightarrow>
       (if Vec3 x y z \<in> set (blocked w) then Inl (Error ''No path'') else Inr (), w)),
     lookAt = (\<lambda>p force w. (Inr (), w)),
     placeBlock = (\<lambda>b v w.
       if position b \<in> set (refused w) then (Inl (Error ''Cannot place''), w)
       else (Inr (), w\<lparr>solids := plus (position b) v # solids w\<rparr>)),
     dig = (\<lambda>b w.
       if position b \<in> set (refused w) then (Inl (Error ''Cannot dig''), w)
       else (Inr (), w\<lparr>solids := removeAll (position b) (solids w)\<rparr>))\<rparr>"

definition testWorld :: "vec3 list \<Rightarrow> vec3 list \<Rightarrow> vec3 list \<Rightarrow> vec3 list \<Rightarrow> testWorld exec" where
  "testWorld ss hs bs rs =
     \<lparr>world = \<lparr>solids = ss, hidden = hs, blocked = bs, refused = rs\<rparr>, trace = []\<rparr>"

subsection \<open>Reading the log\<close>

fun isBlockAt :: "call \<Rightarrow> bool" where
  "isBlockAt (BlockAt p) = True"
| "isBlockAt _ = False"

fun isPlaceBlock :: "call \<Rightarrow> bool" where
  "isPlaceBlock (PlaceBlock b v) = True"
| "isPlaceBlock _ = False"

fun isDig :: "call \<Rightarrow> bool" where
  "isDig (Dig b) = True"
| "isDig _ = False"

fun isThrown :: "outcome \<Rightarrow> bool" where
  "isThrown (Thrown err) = True"
| "isThrown _ = False"

text \<open>The positions \<^verbatim>\<open>bot.blockAt\<close> was asked about, in order.\<close>

definition queried :: "event list \<Rightarrow> vec3 list" where
  "queried tr = concat (map (\<lambda>ev. case fst ev of BlockAt p \<Rightarrow> [p] | _ \<Rightarrow> []) tr)"

text \<open>A placement that went through, a call that raised.\<close>

definition placedOk :: "event \<Rightarrow> bool" where
  "placedOk ev = (isPlaceBlock (fst ev) \<and> snd ev = Done)"

definition threw :: "event \<Rightarrow> bool" where
  "threw ev = isThrown (snd ev)"

text \<open>
  What may come directly after an event in the log of one \<^verbatim>\<open>placeBlockAt\<close> call: after a
  placement that raised, only a query; after any other call that raised and after a
  placement that went through, nothing; after anything else, any call.
\<close>

definition follows :: "event \<Rightarrow> event \<Rightarrow> bool" where
  "follows a b =
     (if threw a then isPlaceBlock (fst a) \<and> isBlockAt (fst b)
      else \<not> placedOk a)"

text \<open>
  How the result of the loop body for one face relates to the last call it made, where \<open>v\<close>
  is the direction to place in: an error leaves the body only from a call other than the
  placement, \<^verbatim>\<open>return true\<close> only after a placement that went through, and the loop goes on
  after a query that found no reference block and after a placement that raised.
\<close>

definition faceResult :: "vec3 \<Rightarrow> error + flow \<Rightarrow> event \<Rightarrow> bool" where
  "faceResult v r ev =
     (case r of
        Inl err \<Rightarrow> snd ev = Thrown err \<and> \<not> isPlaceBlock (fst ev)
      | Inr (Return b) \<Rightarrow> b \<and> (\<exists>blk. ev = (PlaceBlock blk v, Done))
      | Inr Continue \<Rightarrow> \<not> placedOk ev \<and> (threw ev \<longrightarrow> isPlaceBlock (fst ev)))"

text \<open>
  The calls \<^verbatim>\<open>clear-area\<close> makes for a block \<open>blk\<close> it found, after the query: only the
  last of them can be a dig or a call that raised, and the \<^verbatim>\<open>try\<close> block either raised
  there or ended with the dig of \<open>blk\<close>.
\<close>

definition digTail :: "block \<Rightarrow> error + bool \<Rightarrow> event list \<Rightarrow> bool" where
  "digTail blk r new =
     (new \<noteq> [] \<and> queried new = [] \<and>
      (\<forall>ev \<in> set (butlast new). \<not> threw ev \<and> \<not> isDig (fst ev)) \<and>
      (case r of
         Inl err \<Rightarrow> snd (last new) = Thrown err
       | Inr dug \<Rightarrow> dug \<and> last new = (Dig blk, Done)))"

text \<open>By how much the two counters of a placement handler exceed the number of coordinates processed.\<close>

definition surplus :: "'w built \<Rightarrow> int" where
  "surplus t = blocksPlaced t + blocksFailed t - int (length (processed t))"

section \<open>Properties\<close>

subsection \<open>The loops as folds over their index ranges\<close>

declare forLt.simps [simp del] forLe.simps [simp del]

lemma forLe_fold: "forLe i hi body s = fold body [i..hi] s"
proof (induction i hi body s rule: forLe.induct)
  case (1 i hi body s)
  show ?case
  proof (cases "i \<le> hi")
    case True
    then show ?thesis
      using "1" by (subst forLe.simps) (simp add: upto_rec1)
  next
    case False
    then show ?thesis by (subst forLe.simps) simp
  qed
qed

lemma forLt_fold: "forLt i hi body s = fold body [i..hi - 1] s"
proof (induction i hi body s rule: forLt.induct)
  case (1 i hi body s)
  show ?case
  proof (cases "i < hi")
    case True
    then show ?thesis
      using "1" by (subst forLt.simps) (simp add: upto_rec1)
  next
    case False
    then show ?thesis by (subst forLt.simps) simp
  qed
qed

lemma forLe_eq_fold: "forLe i hi body = fold body [i..hi]"
  by (rule ext) (rule forLe_fold)

lemma forLt_eq_fold: "forLt i hi body = fold body [i..hi - 1]"
  by (rule ext) (rule forLt_fold)

lemma concat3_product:
  "concat (map (\<lambda>a. concat (map (\<lambda>b. map (f a b) cs) bs)) as) =
   map (\<lambda>(a, b, c). f a b c) (List.product as (List.product bs cs))"
proof -
  have inner: "concat (map (\<lambda>b. map (f a b) cs) bs) = map (\<lambda>(b, c). f a b c) (List.product bs cs)" for a
    by (induction bs) simp_all
  show ?thesis
    by (induction as) (simp_all add: inner)
qed

lemma concat2_product:
  "concat (map (\<lambda>a. map (f a) bs) as) = map (\<lambda>(a, b). f a b) (List.product as bs)"
  by (induction as) simp_all

lemma concat_if_filter:
  "concat (map (\<lambda>z. if P z then [f z] else []) zs) = map f (filter P zs)"
  by (induction zs) simp_all

lemma concat3_filter_product:
  "concat (map (\<lambda>a. concat (map (\<lambda>b. concat (map (\<lambda>c. if P a b c then [f a b c] else []) cs)) bs)) as) =
   map (\<lambda>(a, b, c). f a b c) (filter (\<lambda>(a, b, c). P a b c) (List.product as (List.product bs cs)))"
proof -
  have inner: "concat (map (\<lambda>b. concat (map (\<lambda>c. if P a b c then [f a b c] else []) cs)) bs) =
               map (\<lambda>(b, c). f a b c) (filter (\<lambda>(b, c). P a b c) (List.product bs cs))" for a
    by (induction bs) (simp_all add: concat_if_filter filter_map comp_def)
  show ?thesis
    by (induction as) (simp_all add: inner filter_map comp_def)
qed

subsection \<open>The coordinates each placement handler processes\<close>

lemma processed_placeAndCount:
  "processed (placeAndCount bot' x y z bt t) = processed t @ [Vec3 x y z]"
  by (simp add: placeAndCount_def split: prod.split)

lemma processed_start: "processed (start e) = []"
  by (simp add: start_def)

lemma buildWall_processed:
  "processed (snd (buildWall bot' startX startY startZ d length' height thickness' material e)) =
   concat (map (\<lambda>l. concat (map (\<lambda>h. map (\<lambda>t.
      Vec3 (startX + deltaX d * l + deltaZ d * t) (startY + h) (startZ + deltaZ d * l + deltaX d * t))
      [0..defaultTo 1 thickness' - 1]) [0..height - 1])) [0..length' - 1])"
proof -
  let ?T = "defaultTo 1 thickness'"
  let ?c = "\<lambda>l h t. Vec3 (startX + deltaX d * l + deltaZ d * t) (startY + h) (startZ + deltaZ d * l + deltaX d * t)"
  have inner: "processed (fold (\<lambda>t. placeAndCount bot' (startX + deltaX d * l + deltaZ d * t) (startY + h)
                 (startZ + deltaZ d * l + deltaX d * t) (orDefault material)) ts s) =
               processed s @ map (?c l h) ts" for l h ts and s :: "'a built"
    by (induction ts arbitrary: s) (simp_all add: processed_placeAndCount)
  have middle: "processed (fold (\<lambda>h. fold (\<lambda>t. placeAndCount bot' (startX + deltaX d * l + deltaZ d * t) (startY + h)
                 (startZ + deltaZ d * l + deltaX d * t) (orDefault material)) ts) hs s) =
               processed s @ concat (map (\<lambda>h. map (?c l h) ts) hs)" for l hs ts and s :: "'a built"
    by (induction hs arbitrary: s) (simp_all add: inner)
  have outer: "processed (fold (\<lambda>l. fold (\<lambda>h. fold (\<lambda>t. placeAndCount bot' (startX + deltaX d * l + deltaZ d * t) (startY + h)
                 (startZ + deltaZ d * l + deltaX d * t) (orDefault material)) ts) hs) ls s) =
               processed s @ concat (map (\<lambda>l. concat (map (\<lambda>h. map (?c l h) ts) hs)) ls)" for ls hs ts and s :: "'a built"
    by (induction ls arbitrary: s) (simp_all add: middle)
  show ?thesis
    by (simp add: buildWall_def Let_def forLt_eq_fold outer processed_start)
qed

lemma wall_inj:
  "inj (\<lambda>(l, h, t). Vec3 (startX + deltaX d * l + deltaZ d * t) (startY + h) (startZ + deltaZ d * l + deltaX d * t))"
  by (cases d) (auto simp: inj_on_def deltaX_def deltaZ_def)

lemma buildFloor_processed:
  "processed (snd (buildFloor bot' centerX centerY centerZ width length' blockType e)) =
   concat (map (\<lambda>x. map (\<lambda>z. Vec3 x centerY z)
      [centerZ - length' div 2..centerZ + length' div 2]) [centerX - width div 2..centerX + width div 2])"
proof -
  have inner: "processed (fold (\<lambda>z. placeAndCount bot' x centerY z (orDefault blockType)) zs s) =
               processed s @ map (\<lambda>z. Vec3 x centerY z) zs" for x zs and s :: "'a built"
    by (induction zs arbitrary: s) (simp_all add: processed_placeAndCount)
  have outer: "processed (fold (\<lambda>x. fold (\<lambda>z. placeAndCount bot' x centerY z (orDefault blockType)) zs) xs s) =
               processed s @ concat (map (\<lambda>x. map (\<lambda>z. Vec3 x centerY z) zs) xs)" for xs zs and s :: "'a built"
    by (induction xs arbitrary: s) (simp_all add: inner)
  show ?thesis
    by (simp add: buildFloor_def Let_def forLe_eq_fold outer processed_start)
qed

lemma buildBox_processed:
  "processed (snd (buildBox bot' x1 y1 z1 x2 y2 z2 blockType e)) =
   concat (map (\<lambda>x. concat (map (\<lambda>y. concat (map (\<lambda>z.
      if x = min x1 x2 \<or> x = max x1 x2 \<or> y = min y1 y2 \<or> y = max y1 y2 \<or> z = min z1 z2 \<or> z = max z1 z2
      then [Vec3 x y z] else [])
      [min z1 z2..max z1 z2])) [min y1 y2..max y1 y2])) [min x1 x2..max x1 x2])"
proof -
  let ?edge = "\<lambda>x y z. x = min x1 x2 \<or> x = max x1 x2 \<or> y = min y1 y2 \<or> y = max y1 y2 \<or> z = min z1 z2 \<or> z = max z1 z2"
  let ?step = "\<lambda>x y z. if ?edge x y z then placeAndCount bot' x y z (orDefault blockType) else id"
  let ?c = "\<lambda>x y z. if ?edge x y z then [Vec3 x y z] else []"
  have step: "processed (?step x y z s) = processed s @ ?c x y z" for x y z and s :: "'a built"
    by (simp add: processed_placeAndCount)
  have inner: "processed (fold (?step x y) zs s) = processed s @ concat (map (?c x y) zs)"
    for x y zs and s :: "'a built"
    by (induction zs arbitrary: s) (simp_all add: processed_placeAndCount)
  have middle: "processed (fold (\<lambda>y. fold (?step x y) zs) ys s) =
                processed s @ concat (map (\<lambda>y. concat (map (?c x y) zs)) ys)"
    for x ys zs and s :: "'a built"
    by (induction ys arbitrary: s) (simp_all only: fold_simps list.map concat.simps inner append_Nil2 append_assoc id_apply comp_apply)
  have outer: "processed (fold (\<lambda>x. fold (\<lambda>y. fold (?step x y) zs) ys) xs s) =
                processed s @ concat (map (\<lambda>x. concat (map (\<lambda>y. concat (map (?c x y) zs)) ys)) xs)"
    for xs ys zs and s :: "'a built"
    by (induction xs arbitrary: s) (simp_all only: fold_simps list.map concat.simps middle append_Nil2 append_assoc id_apply comp_apply)
  show ?thesis
    by (simp only: buildBox_def Let_def forLe_eq_fold outer processed_start snd_conv append_Nil)
qed

lemma fillArea_processed:
  "processed (snd (fillArea bot' x1 y1 z1 x2 y2 z2 blockType e)) =
   concat (map (\<lambda>x. concat (map (\<lambda>y. map (\<lambda>z. Vec3 x y z)
      [min z1 z2..max z1 z2]) [min y1 y2..max y1 y2])) [min x1 x2..max x1 x2])"
proof -
  have inner: "processed (fold (\<lambda>z. placeAndCount bot' x y z (orDefault blockType)) zs s) =
               processed s @ map (\<lambda>z. Vec3 x y z) zs" for x y zs and s :: "'a built"
    by (induction zs arbitrary: s) (simp_all add: processed_placeAndCount)
  have middle: "processed (fold (\<lambda>y. fold (\<lambda>z. placeAndCount bot' x y z (orDefault blockType)) zs) ys s) =
               processed s @ concat (map (\<lambda>y. map (\<lambda>z. Vec3 x y z) zs) ys)" for x ys zs and s :: "'a built"
    by (induction ys arbitrary: s) (simp_all add: inner)
  have outer: "processed (fold (\<lambda>x. fold (\<lambda>y. fold (\<lambda>z. placeAndCount bot' x y z (orDefault blockType)) zs) ys) xs s) =
               processed s @ concat (map (\<lambda>x. concat (map (\<lambda>y. map (\<lambda>z. Vec3 x y z) zs) ys)) xs)"
    for xs ys zs and s :: "'a built"
    by (induction xs arbitrary: s) (simp_all add: middle)
  show ?thesis
    by (simp add: fillArea_def Let_def forLe_eq_fold outer processed_start)
qed

text \<open>
  The bot's state and log after a placement handler are those of calling \<^verbatim>\<open>placeBlockAt\<close>
  at each of these coordinates in turn, starting from the state the handler was entered in.
\<close>

lemma agent_placeAndCount:
  "agent (placeAndCount bot' x y z bt t) = snd (placeBlockAt bot' x y z bt (agent t))"
  by (simp add: placeAndCount_def split: prod.splits)

lemma agent_start: "agent (start e) = e"
  by (simp add: start_def)

lemma buildWall_agent:
  "agent (snd (buildWall bot' startX startY startZ d length' height thickness' material e)) =
   fold (\<lambda>p a. snd (placeBlockAt bot' (vx p) (vy p) (vz p) (orDefault material) a))
     (concat (map (\<lambda>l. concat (map (\<lambda>h. map (\<lambda>t.
        Vec3 (startX + deltaX d * l + deltaZ d * t) (startY + h) (startZ + deltaZ d * l + deltaX d * t))
        [0..defaultTo 1 thickness' - 1]) [0..height - 1])) [0..length' - 1])) e"
proof -
  let ?P = "\<lambda>p a. snd (placeBlockAt bot' (vx p) (vy p) (vz p) (orDefault material) a)"
  let ?c = "\<lambda>l h t. Vec3 (startX + deltaX d * l + deltaZ d * t) (startY + h) (startZ + deltaZ d * l + deltaX d * t)"
  have inner: "agent (fold (\<lambda>t. placeAndCount bot' (startX + deltaX d * l + deltaZ d * t) (startY + h)
                 (startZ + deltaZ d * l + deltaX d * t) (orDefault material)) ts s) =
               fold ?P (map (?c l h) ts) (agent s)" for l h ts and s :: "'a built"
    by (induction ts arbitrary: s) (simp_all add: agent_placeAndCount)
  have middle: "agent (fold (\<lambda>h. fold (\<lambda>t. placeAndCount bot' (startX + deltaX d * l + deltaZ d * t) (startY + h)
                 (startZ + deltaZ d * l + deltaX d * t) (orDefault material)) ts) hs s) =
               fold ?P (concat (map (\<lambda>h. map (?c l h) ts) hs)) (agent s)" for l hs ts and s :: "'a built"
    by (induction hs arbitrary: s) (simp_all add: inner)
  have outer: "agent (fold (\<lambda>l. fold (\<lambda>h. fold (\<lambda>t. placeAndCount bot' (startX + deltaX d * l + deltaZ d * t) (startY + h)
                 (startZ + deltaZ d * l + deltaX d * t) (orDefault material)) ts) hs) ls s) =
               fold ?P (concat (map (\<lambda>l. concat (map (\<lambda>h. map (?c l h) ts) hs)) ls)) (agent s)"
    for ls hs ts and s :: "'a built"
    by (induction ls arbitrary: s) (simp_all add: middle)
  show ?thesis
    by (simp add: buildWall_def Let_def forLt_eq_fold outer agent_start)
qed

lemma buildFloor_agent:
  "agent (snd (buildFloor bot' centerX centerY centerZ width length' blockType e)) =
   fold (\<lambda>p a. snd (placeBlockAt bot' (vx p) (vy p) (vz p) (orDefault blockType) a))
     (concat (map (\<lambda>x. map (\<lambda>z. Vec3 x centerY z)
        [centerZ - length' div 2..centerZ + length' div 2]) [centerX - width div 2..centerX + width div 2])) e"
proof -
  let ?P = "\<lambda>p a. snd (placeBlockAt bot' (vx p) (vy p) (vz p) (orDefault blockType) a)"
  have inner: "agent (fold (\<lambda>z. placeAndCount bot' x centerY z (orDefault blockType)) zs s) =
               fold ?P (map (\<lambda>z. Vec3 x centerY z) zs) (agent s)" for x zs and s :: "'a built"
    by (induction zs arbitrary: s) (simp_all add: agent_placeAndCount)
  have outer: "agent (fold (\<lambda>x. fold (\<lambda>z. placeAndCount bot' x centerY z (orDefault blockType)) zs) xs s) =
               fold ?P (concat (map (\<lambda>x. map (\<lambda>z. Vec3 x centerY z) zs) xs)) (agent s)"
    for xs zs and s :: "'a built"
    by (induction xs arbitrary: s) (simp_all add: inner)
  show ?thesis
    by (simp add: buildFloor_def Let_def forLe_eq_fold outer agent_start)
qed

lemma buildBox_agent:
  "agent (snd (buildBox bot' x1 y1 z1 x2 y2 z2 blockType e)) =
   fold (\<lambda>p a. snd (placeBlockAt bot' (vx p) (vy p) (vz p) (orDefault blockType) a))
     (concat (map (\<lambda>x. concat (map (\<lambda>y. concat (map (\<lambda>z.
        if x = min x1 x2 \<or> x = max x1 x2 \<or> y = min y1 y2 \<or> y = max y1 y2 \<or> z = min z1 z2 \<or> z = max z1 z2
        then [Vec3 x y z] else [])
        [min z1 z2..max z1 z2])) [min y1 y2..max y1 y2])) [min x1 x2..max x1 x2])) e"
proof -
  let ?P = "\<lambda>p a. snd (placeBlockAt bot' (vx p) (vy p) (vz p) (orDefault blockType) a)"
  let ?edge = "\<lambda>x y z. x = min x1 x2 \<or> x = max x1 x2 \<or> y = min y1 y2 \<or> y = max y1 y2 \<or> z = min z1 z2 \<or> z = max z1 z2"
  let ?step = "\<lambda>x y z. if ?edge x y z then placeAndCount bot' x y z (orDefault blockType) else id"
  let ?c = "\<lambda>x y z. if ?edge x y z then [Vec3 x y z] else []"
  have inner: "agent (fold (?step x y) zs s) = fold ?P (concat (map (?c x y) zs)) (agent s)"
    for x y zs and s :: "'a built"
    by (induction zs arbitrary: s) (simp_all add: agent_placeAndCount)
  have middle: "agent (fold (\<lambda>y. fold (?step x y) zs) ys s) =
                fold ?P (concat (map (\<lambda>y. concat (map (?c x y) zs)) ys)) (agent s)"
    for x ys zs and s :: "'a built"
    by (induction ys arbitrary: s)
      (simp_all only: fold_simps list.map concat.simps inner fold_append id_apply comp_apply)
  have outer: "agent (fold (\<lambda>x. fold (\<lambda>y. fold (?step x y) zs) ys) xs s) =
                fold ?P (concat (map (\<lambda>x. concat (map (\<lambda>y. concat (map (?c x y) zs)) ys)) xs)) (agent s)"
    for xs ys zs and s :: "'a built"
    by (induction xs arbitrary: s)
      (simp_all only: fold_simps list.map concat.simps middle fold_append id_apply comp_apply)
  show ?thesis
    by (simp only: buildBox_def Let_def forLe_eq_fold outer agent_start snd_conv)
qed

lemma fillArea_agent:
  "agent (snd (fillArea bot' x1 y1 z1 x2 y2 z2 blockType e)) =
   fold (\<lambda>p a. snd (placeBlockAt bot' (vx p) (vy p) (vz p) (orDefault blockType) a))
     (concat (map (\<lambda>x. concat (map (\<lambda>y. map (\<lambda>z. Vec3 x y z)
        [min z1 z2..max z1 z2]) [min y1 y2..max y1 y2])) [min x1 x2..max x1 x2])) e"
proof -
  let ?P = "\<lambda>p a. snd (placeBlockAt bot' (vx p) (vy p) (vz p) (orDefault blockType) a)"
  have inner: "agent (fold (\<lambda>z. placeAndCount bot' x y z (orDefault blockType)) zs s) =
               fold ?P (map (\<lambda>z. Vec3 x y z) zs) (agent s)" for x y zs and s :: "'a built"
    by (induction zs arbitrary: s) (simp_all add: agent_placeAndCount)
  have middle: "agent (fold (\<lambda>y. fold (\<lambda>z. placeAndCount bot' x y z (orDefault blockType)) zs) ys s) =
               fold ?P (concat (map (\<lambda>y. map (\<lambda>z. Vec3 x y z) zs) ys)) (agent s)"
    for x ys zs and s :: "'a built"
    by (induction ys arbitrary: s) (simp_all add: inner)
  have outer: "agent (fold (\<lambda>x. fold (\<lambda>y. fold (\<lambda>z. placeAndCount bot' x y z (orDefault blockType)) zs) ys) xs s) =
               fold ?P (concat (map (\<lambda>x. concat (map (\<lambda>y. map (\<lambda>z. Vec3 x y z) zs) ys)) xs)) (agent s)"
    for xs ys zs and s :: "'a built"
    by (induction xs arbitrary: s) (simp_all add: middle)
  show ?thesis
    by (simp add: fillArea_def Let_def forLe_eq_fold outer agent_start)
qed

text \<open>Each call adds one to exactly one of the two counters.\<close>

lemma fold_unchanged:
  assumes "\<And>a s. I (g a s) = I s"
  shows "I (fold g xs s) = I s"
  using assms by (induction xs arbitrary: s) simp_all

lemma surplus_placeAndCount: "surplus (placeAndCount bot' x y z bt t) = surplus t"
  by (simp add: placeAndCount_def surplus_def split: prod.splits)

lemma surplus_start: "surplus (start e) = 0"
  by (simp add: surplus_def start_def)

lemma placed_plus_failed:
  "surplus (snd (buildWall bot' startX startY startZ d length' height thickness' material e)) = 0"
  "surplus (snd (buildFloor bot' centerX centerY centerZ width length' blockType e)) = 0"
  "surplus (snd (buildBox bot' x1 y1 z1 x2 y2 z2 blockType e)) = 0"
  "surplus (snd (fillArea bot' x1 y1 z1 x2 y2 z2 blockType e)) = 0"
  unfolding buildWall_def buildFloor_def buildBox_def fillArea_def Let_def snd_conv forLe_eq_fold forLt_eq_fold
  by (simp_all add: fold_unchanged [where I = surplus] surplus_placeAndCount surplus_start)

subsection \<open>build-wall\<close>

text \<open>
  C5. For each of the four directions and positive length, height and thickness, build-wall
  calls \<^verbatim>\<open>placeBlockAt\<close> at exactly \<open>length * height * thickness\<close> coordinates, all distinct:
  \<open>x = startX + dx*l + dz*t\<close>, \<open>y = startY + h\<close>, \<open>z = startZ + dz*l + dx*t\<close> for
  \<open>0 \<le> l < length\<close>, \<open>0 \<le> h < height\<close>, \<open>0 \<le> t < thickness\<close>, with \<open>l\<close> outermost and \<open>t\<close>
  innermost, where \<open>(dx, dz)\<close> is the unit vector of the direction. The bot's state and log
  at the end are those of \<^verbatim>\<open>placeBlockAt\<close> called at these coordinates one after the other,
  and each call is counted as placed or as failed.
\<close>

theorem buildWall_coordinates:
  assumes "0 < length'" and "0 < height" and "0 < defaultTo 1 thickness'"
  shows "processed (snd (buildWall bot' startX startY startZ d length' height thickness' material e)) =
           [Vec3 (startX + deltaX d * l + deltaZ d * t) (startY + h) (startZ + deltaZ d * l + deltaX d * t).
              l \<leftarrow> [0..length' - 1], h \<leftarrow> [0..height - 1], t \<leftarrow> [0..defaultTo 1 thickness' - 1]] \<and>
         agent (snd (buildWall bot' startX startY startZ d length' height thickness' material e)) =
           fold (\<lambda>p a. snd (placeBlockAt bot' (vx p) (vy p) (vz p) (orDefault material) a))
             [Vec3 (startX + deltaX d * l + deltaZ d * t) (startY + h) (startZ + deltaZ d * l + deltaX d * t).
                l \<leftarrow> [0..length' - 1], h \<leftarrow> [0..height - 1], t \<leftarrow> [0..defaultTo 1 thickness' - 1]] e \<and>
         blocksPlaced (snd (buildWall bot' startX startY startZ d length' height thickness' material e)) +
         blocksFailed (snd (buildWall bot' startX startY startZ d length' height thickness' material e)) =
           length' * height * defaultTo 1 thickness' \<and>
         int (length (processed (snd (buildWall bot' startX startY startZ d length' height thickness' material e)))) =
           length' * height * defaultTo 1 thickness' \<and>
         distinct (processed (snd (buildWall bot' startX startY startZ d length' height thickness' material e))) \<and>
         set (processed (snd (buildWall bot' startX startY startZ d length' height thickness' material e))) =
           {Vec3 (startX + deltaX d * l + deltaZ d * t) (startY + h) (startZ + deltaZ d * l + deltaX d * t) | l h t.
              0 \<le> l \<and> l < length' \<and> 0 \<le> h \<and> h < height \<and> 0 \<le> t \<and> t < defaultTo 1 thickness'}"
proof -
  let ?cs = "processed (snd (buildWall bot' startX startY startZ d length' height thickness' material e))"
  let ?f = "\<lambda>(l, h, t). Vec3 (startX + deltaX d * l + deltaZ d * t) (startY + h) (startZ + deltaZ d * l + deltaX d * t)"
  let ?ixs = "List.product [0..length' - 1] (List.product [0..height - 1] [0..defaultTo 1 thickness' - 1])"
  have cs: "?cs = map ?f ?ixs"
    by (simp only: buildWall_processed concat3_product)
  have 1: "?cs = [Vec3 (startX + deltaX d * l + deltaZ d * t) (startY + h) (startZ + deltaZ d * l + deltaX d * t).
              l \<leftarrow> [0..length' - 1], h \<leftarrow> [0..height - 1], t \<leftarrow> [0..defaultTo 1 thickness' - 1]]"
    by (simp only: buildWall_processed)
  have "length ?cs = nat length' * (nat height * nat (defaultTo 1 thickness'))"
    by (simp add: cs)
  then have 2: "int (length ?cs) = length' * height * defaultTo 1 thickness'"
    using assms by simp
  have "distinct ?ixs"
    by (simp add: distinct_product)
  then have 3: "distinct ?cs"
    unfolding cs distinct_map
    using inj_on_subset [OF wall_inj [of startX d startY startZ], of "set ?ixs"] by simp
  have 4: "set ?cs = {Vec3 (startX + deltaX d * l + deltaZ d * t) (startY + h) (startZ + deltaZ d * l + deltaX d * t) | l h t.
              0 \<le> l \<and> l < length' \<and> 0 \<le> h \<and> h < height \<and> 0 \<le> t \<and> t < defaultTo 1 thickness'}"
  proof -
    have ixs: "set ?ixs = {(l, h, t). 0 \<le> l \<and> l < length' \<and> 0 \<le> h \<and> h < height \<and> 0 \<le> t \<and> t < defaultTo 1 thickness'}"
      by auto
    show ?thesis
      unfolding cs set_map ixs by (rule set_eqI) (simp add: image_iff, blast)
  qed
  have 5: "agent (snd (buildWall bot' startX startY startZ d length' height thickness' material e)) =
           fold (\<lambda>p a. snd (placeBlockAt bot' (vx p) (vy p) (vz p) (orDefault material) a))
             [Vec3 (startX + deltaX d * l + deltaZ d * t) (startY + h) (startZ + deltaZ d * l + deltaX d * t).
                l \<leftarrow> [0..length' - 1], h \<leftarrow> [0..height - 1], t \<leftarrow> [0..defaultTo 1 thickness' - 1]] e"
    by (simp only: buildWall_agent)
  have 6: "blocksPlaced (snd (buildWall bot' startX startY startZ d length' height thickness' material e)) +
         blocksFailed (snd (buildWall bot' startX startY startZ d length' height thickness' material e)) =
           length' * height * defaultTo 1 thickness'"
    using placed_plus_failed(1) [of bot' startX startY startZ d length' height thickness' material e] 2
    by (simp add: surplus_def)
  from 1 2 3 4 5 6 show ?thesis by blast
qed

theorem buildWall_coordinates_witness:
  "(0::int) < 2 \<and> (0::int) < 2 \<and> (0::int) < defaultTo 1 None \<and>
   processed (snd (buildWall testBot 5 60 7 North 2 2 None None (testWorld [Vec3 5 59 7, Vec3 5 59 6] [] [] []))) =
     [Vec3 5 60 7, Vec3 5 61 7, Vec3 5 60 6, Vec3 5 61 6] \<and>
   blocksPlaced (snd (buildWall testBot 5 60 7 North 2 2 None None (testWorld [Vec3 5 59 7, Vec3 5 59 6] [] [] []))) +
   blocksFailed (snd (buildWall testBot 5 60 7 North 2 2 None None (testWorld [Vec3 5 59 7, Vec3 5 59 6] [] [] []))) = 4 \<and>
   blocksPlaced (snd (buildWall testBot 5 60 7 North 2 2 None None (testWorld [Vec3 5 59 7, Vec3 5 59 6] [] [] []))) = 4 \<and>
   queried (trace (agent (snd (buildWall testBot 5 60 7 North 2 2 None None (testWorld [Vec3 5 59 7, Vec3 5 59 6] [] [] []))))) =
     [Vec3 5 60 7, Vec3 5 59 7, Vec3 5 61 7, Vec3 5 60 7,
      Vec3 5 60 6, Vec3 5 59 6, Vec3 5 61 6, Vec3 5 60 6] \<and>
   solids (world (agent (snd (buildWall testBot 5 60 7 North 2 2 None None (testWorld [Vec3 5 59 7, Vec3 5 59 6] [] [] []))))) =
     [Vec3 5 61 6, Vec3 5 60 6, Vec3 5 61 7, Vec3 5 60 7, Vec3 5 59 7, Vec3 5 59 6]"
proof -
  have "processed (snd (buildWall testBot 5 60 7 North 2 2 None None (testWorld [Vec3 5 59 7, Vec3 5 59 6] [] [] []))) =
     [Vec3 5 60 7, Vec3 5 61 7, Vec3 5 60 6, Vec3 5 61 6] \<and>
   blocksPlaced (snd (buildWall testBot 5 60 7 North 2 2 None None (testWorld [Vec3 5 59 7, Vec3 5 59 6] [] [] []))) +
   blocksFailed (snd (buildWall testBot 5 60 7 North 2 2 None None (testWorld [Vec3 5 59 7, Vec3 5 59 6] [] [] []))) = 4"
    using buildWall_coordinates [where length' = 2 and height = 2 and thickness' = None and bot' = testBot
      and startX = 5 and startY = 60 and startZ = 7 and d = North and material = None
      and e = "(testWorld [Vec3 5 59 7, Vec3 5 59 6] [] [] [])"]
    by (simp add: defaultTo_def deltaX_def deltaZ_def upto_rec1)
  moreover have "blocksPlaced (snd (buildWall testBot 5 60 7 North 2 2 None None (testWorld [Vec3 5 59 7, Vec3 5 59 6] [] [] []))) = 4"
    by code_simp
  moreover have "queried (trace (agent (snd (buildWall testBot 5 60 7 North 2 2 None None (testWorld [Vec3 5 59 7, Vec3 5 59 6] [] [] []))))) =
     [Vec3 5 60 7, Vec3 5 59 7, Vec3 5 61 7, Vec3 5 60 7,
      Vec3 5 60 6, Vec3 5 59 6, Vec3 5 61 6, Vec3 5 60 6]"
    by code_simp
  moreover have "solids (world (agent (snd (buildWall testBot 5 60 7 North 2 2 None None (testWorld [Vec3 5 59 7, Vec3 5 59 6] [] [] []))))) =
     [Vec3 5 61 6, Vec3 5 60 6, Vec3 5 61 7, Vec3 5 60 7, Vec3 5 59 7, Vec3 5 59 6]"
    by code_simp
  ultimately show ?thesis by (simp add: defaultTo_def)
qed

subsection \<open>build-floor\<close>

text \<open>
  C6. For width and length at least 0, build-floor calls \<^verbatim>\<open>placeBlockAt\<close> at exactly
  \<open>(2 * (width div 2) + 1) * (2 * (length div 2) + 1)\<close> coordinates: every \<open>(x, centerY, z)\<close>
  with \<open>x\<close> within \<open>width div 2\<close> of \<open>centerX\<close> and \<open>z\<close> within \<open>length div 2\<close> of
  \<open>centerZ\<close>. A width (length) of 0 or 1 gives the single value \<open>centerX\<close> (\<open>centerZ\<close>) on
  that axis. The bot's state and log at the end are those of \<^verbatim>\<open>placeBlockAt\<close> called at these
  coordinates one after the other, and each call is counted as placed or as failed.
\<close>

theorem buildFloor_coordinates:
  assumes "0 \<le> width" and "0 \<le> length'"
  shows "processed (snd (buildFloor bot' centerX centerY centerZ width length' blockType e)) =
           [Vec3 x centerY z.
              x \<leftarrow> [centerX - width div 2..centerX + width div 2],
              z \<leftarrow> [centerZ - length' div 2..centerZ + length' div 2]] \<and>
         agent (snd (buildFloor bot' centerX centerY centerZ width length' blockType e)) =
           fold (\<lambda>p a. snd (placeBlockAt bot' (vx p) (vy p) (vz p) (orDefault blockType) a))
             [Vec3 x centerY z.
                x \<leftarrow> [centerX - width div 2..centerX + width div 2],
                z \<leftarrow> [centerZ - length' div 2..centerZ + length' div 2]] e \<and>
         blocksPlaced (snd (buildFloor bot' centerX centerY centerZ width length' blockType e)) +
         blocksFailed (snd (buildFloor bot' centerX centerY centerZ width length' blockType e)) =
           (2 * (width div 2) + 1) * (2 * (length' div 2) + 1) \<and>
         int (length (processed (snd (buildFloor bot' centerX centerY centerZ width length' blockType e)))) =
           (2 * (width div 2) + 1) * (2 * (length' div 2) + 1) \<and>
         set (processed (snd (buildFloor bot' centerX centerY centerZ width length' blockType e))) =
           {Vec3 x centerY z | x z. \<bar>x - centerX\<bar> \<le> width div 2 \<and> \<bar>z - centerZ\<bar> \<le> length' div 2} \<and>
         (width \<in> {0, 1} \<longrightarrow>
            vx ` set (processed (snd (buildFloor bot' centerX centerY centerZ width length' blockType e))) = {centerX}) \<and>
         (length' \<in> {0, 1} \<longrightarrow>
            vz ` set (processed (snd (buildFloor bot' centerX centerY centerZ width length' blockType e))) = {centerZ})"
proof -
  let ?cs = "processed (snd (buildFloor bot' centerX centerY centerZ width length' blockType e))"
  let ?xs = "[centerX - width div 2..centerX + width div 2]"
  let ?zs = "[centerZ - length' div 2..centerZ + length' div 2]"
  have hw: "0 \<le> width div 2" and hl: "0 \<le> length' div 2"
    using assms by simp_all
  have cs: "?cs = map (\<lambda>(x, z). Vec3 x centerY z) (List.product ?xs ?zs)"
    by (simp only: buildFloor_processed concat2_product)
  have 1: "?cs = [Vec3 x centerY z. x \<leftarrow> ?xs, z \<leftarrow> ?zs]"
    by (simp only: buildFloor_processed)
  have "length ?cs = nat (2 * (width div 2) + 1) * nat (2 * (length' div 2) + 1)"
    by (simp add: cs)
  then have 2: "int (length ?cs) = (2 * (width div 2) + 1) * (2 * (length' div 2) + 1)"
    using hw hl by simp
  have ixs: "set (List.product ?xs ?zs) =
      {(x, z). \<bar>x - centerX\<bar> \<le> width div 2 \<and> \<bar>z - centerZ\<bar> \<le> length' div 2}"
    by auto
  have 3: "set ?cs = {Vec3 x centerY z | x z. \<bar>x - centerX\<bar> \<le> width div 2 \<and> \<bar>z - centerZ\<bar> \<le> length' div 2}"
    unfolding cs set_map ixs by (rule set_eqI) (simp add: image_iff, blast)
  have mem: "Vec3 centerX centerY centerZ \<in> set ?cs"
    unfolding 3 using hw hl by simp
  have 4: "vx ` set ?cs = {centerX}" if "width \<in> {0, 1}"
  proof -
    have "width div 2 = 0" using that by auto
    then have "vx ` set ?cs \<subseteq> {centerX}"
      unfolding 3 by auto
    moreover have "vx (Vec3 centerX centerY centerZ) \<in> vx ` set ?cs"
      using mem by (rule imageI)
    ultimately show ?thesis by auto
  qed
  have 5: "vz ` set ?cs = {centerZ}" if "length' \<in> {0, 1}"
  proof -
    have "length' div 2 = 0" using that by auto
    then have "vz ` set ?cs \<subseteq> {centerZ}"
      unfolding 3 by auto
    moreover have "vz (Vec3 centerX centerY centerZ) \<in> vz ` set ?cs"
      using mem by (rule imageI)
    ultimately show ?thesis by auto
  qed
  have 6: "agent (snd (buildFloor bot' centerX centerY centerZ width length' blockType e)) =
           fold (\<lambda>p a. snd (placeBlockAt bot' (vx p) (vy p) (vz p) (orDefault blockType) a))
             [Vec3 x centerY z. x \<leftarrow> ?xs, z \<leftarrow> ?zs] e"
    by (simp only: buildFloor_agent)
  have 7: "blocksPlaced (snd (buildFloor bot' centerX centerY centerZ width length' blockType e)) +
         blocksFailed (snd (buildFloor bot' centerX centerY centerZ width length' blockType e)) =
           (2 * (width div 2) + 1) * (2 * (length' div 2) + 1)"
    using placed_plus_failed(2) [of bot' centerX centerY centerZ width length' blockType e] 2
    by (simp add: surplus_def)
  from 1 2 3 4 5 6 7 show ?thesis by blast
qed

theorem buildFloor_coordinates_witness:
  "(0::int) \<le> 2 \<and> (0::int) \<le> 1 \<and>
   processed (snd (buildFloor testBot 0 64 0 2 1 None (testWorld [Vec3 (-1) 63 0, Vec3 0 63 0, Vec3 1 63 0] [] [] []))) =
     [Vec3 (-1) 64 0, Vec3 0 64 0, Vec3 1 64 0] \<and>
   blocksPlaced (snd (buildFloor testBot 0 64 0 2 1 None (testWorld [Vec3 (-1) 63 0, Vec3 0 63 0, Vec3 1 63 0] [] [] []))) +
   blocksFailed (snd (buildFloor testBot 0 64 0 2 1 None (testWorld [Vec3 (-1) 63 0, Vec3 0 63 0, Vec3 1 63 0] [] [] []))) = 3 \<and>
   vz ` set (processed (snd (buildFloor testBot 0 64 0 2 1 None (testWorld [Vec3 (-1) 63 0, Vec3 0 63 0, Vec3 1 63 0] [] [] [])))) = {0} \<and>
   blocksPlaced (snd (buildFloor testBot 0 64 0 2 1 None (testWorld [Vec3 (-1) 63 0, Vec3 0 63 0, Vec3 1 63 0] [] [] []))) = 3 \<and>
   queried (trace (agent (snd (buildFloor testBot 0 64 0 2 1 None (testWorld [Vec3 (-1) 63 0, Vec3 0 63 0, Vec3 1 63 0] [] [] []))))) =
     [Vec3 (-1) 64 0, Vec3 (-1) 63 0, Vec3 0 64 0, Vec3 0 63 0, Vec3 1 64 0, Vec3 1 63 0] \<and>
   solids (world (agent (snd (buildFloor testBot 0 64 0 2 1 None (testWorld [Vec3 (-1) 63 0, Vec3 0 63 0, Vec3 1 63 0] [] [] []))))) =
     [Vec3 1 64 0, Vec3 0 64 0, Vec3 (-1) 64 0, Vec3 (-1) 63 0, Vec3 0 63 0, Vec3 1 63 0]"
proof -
  have "processed (snd (buildFloor testBot 0 64 0 2 1 None (testWorld [Vec3 (-1) 63 0, Vec3 0 63 0, Vec3 1 63 0] [] [] []))) =
     [Vec3 (-1) 64 0, Vec3 0 64 0, Vec3 1 64 0] \<and>
   blocksPlaced (snd (buildFloor testBot 0 64 0 2 1 None (testWorld [Vec3 (-1) 63 0, Vec3 0 63 0, Vec3 1 63 0] [] [] []))) +
   blocksFailed (snd (buildFloor testBot 0 64 0 2 1 None (testWorld [Vec3 (-1) 63 0, Vec3 0 63 0, Vec3 1 63 0] [] [] []))) = 3 \<and>
   vz ` set (processed (snd (buildFloor testBot 0 64 0 2 1 None (testWorld [Vec3 (-1) 63 0, Vec3 0 63 0, Vec3 1 63 0] [] [] [])))) = {0}"
    using buildFloor_coordinates [where width = 2 and length' = 1 and bot' = testBot
      and centerX = 0 and centerY = 64 and centerZ = 0 and blockType = None
      and e = "(testWorld [Vec3 (-1) 63 0, Vec3 0 63 0, Vec3 1 63 0] [] [] [])"]
    by (simp add: upto_rec1)
  moreover have "blocksPlaced (snd (buildFloor testBot 0 64 0 2 1 None (testWorld [Vec3 (-1) 63 0, Vec3 0 63 0, Vec3 1 63 0] [] [] []))) = 3"
    by code_simp
  moreover have "queried (trace (agent (snd (buildFloor testBot 0 64 0 2 1 None (testWorld [Vec3 (-1) 63 0, Vec3 0 63 0, Vec3 1 63 0] [] [] []))))) =
     [Vec3 (-1) 64 0, Vec3 (-1) 63 0, Vec3 0 64 0, Vec3 0 63 0, Vec3 1 64 0, Vec3 1 63 0]"
    by code_simp
  moreover have "solids (world (agent (snd (buildFloor testBot 0 64 0 2 1 None (testWorld [Vec3 (-1) 63 0, Vec3 0 63 0, Vec3 1 63 0] [] [] []))))) =
     [Vec3 1 64 0, Vec3 0 64 0, Vec3 (-1) 64 0, Vec3 (-1) 63 0, Vec3 0 63 0, Vec3 1 63 0]"
    by code_simp
  ultimately show ?thesis by simp
qed

subsection \<open>build-box\<close>

text \<open>
  C7. For every pair of corners, build-box calls \<^verbatim>\<open>placeBlockAt\<close> at exactly the coordinates
  of the cuboid between the per-axis minima and maxima at which some axis value equals its
  minimum or maximum, each once; a coordinate strictly inside on all three axes is never
  attempted. The bot's state and log at the end are those of \<^verbatim>\<open>placeBlockAt\<close> called at these
  coordinates one after the other, and each call is counted as placed or as failed.
\<close>

theorem buildBox_shell:
  "processed (snd (buildBox bot' x1 y1 z1 x2 y2 z2 blockType e)) =
     [Vec3 x y z. x \<leftarrow> [min x1 x2..max x1 x2], y \<leftarrow> [min y1 y2..max y1 y2], z \<leftarrow> [min z1 z2..max z1 z2],
        x = min x1 x2 \<or> x = max x1 x2 \<or> y = min y1 y2 \<or> y = max y1 y2 \<or> z = min z1 z2 \<or> z = max z1 z2] \<and>
   agent (snd (buildBox bot' x1 y1 z1 x2 y2 z2 blockType e)) =
     fold (\<lambda>p a. snd (placeBlockAt bot' (vx p) (vy p) (vz p) (orDefault blockType) a))
       [Vec3 x y z. x \<leftarrow> [min x1 x2..max x1 x2], y \<leftarrow> [min y1 y2..max y1 y2], z \<leftarrow> [min z1 z2..max z1 z2],
          x = min x1 x2 \<or> x = max x1 x2 \<or> y = min y1 y2 \<or> y = max y1 y2 \<or> z = min z1 z2 \<or> z = max z1 z2] e \<and>
   blocksPlaced (snd (buildBox bot' x1 y1 z1 x2 y2 z2 blockType e)) +
   blocksFailed (snd (buildBox bot' x1 y1 z1 x2 y2 z2 blockType e)) =
     int (length (processed (snd (buildBox bot' x1 y1 z1 x2 y2 z2 blockType e)))) \<and>
   set (processed (snd (buildBox bot' x1 y1 z1 x2 y2 z2 blockType e))) =
     {Vec3 x y z | x y z.
        min x1 x2 \<le> x \<and> x \<le> max x1 x2 \<and> min y1 y2 \<le> y \<and> y \<le> max y1 y2 \<and>
        min z1 z2 \<le> z \<and> z \<le> max z1 z2 \<and>
        (x = min x1 x2 \<or> x = max x1 x2 \<or> y = min y1 y2 \<or> y = max y1 y2 \<or>
         z = min z1 z2 \<or> z = max z1 z2)} \<and>
   distinct (processed (snd (buildBox bot' x1 y1 z1 x2 y2 z2 blockType e)))"
proof -
  let ?cs = "processed (snd (buildBox bot' x1 y1 z1 x2 y2 z2 blockType e))"
  let ?P = "\<lambda>(x, y, z). x = min x1 x2 \<or> x = max x1 x2 \<or> y = min y1 y2 \<or> y = max y1 y2 \<or>
         z = min z1 z2 \<or> z = max z1 z2"
  let ?ixs = "List.product [min x1 x2..max x1 x2] (List.product [min y1 y2..max y1 y2] [min z1 z2..max z1 z2])"
  have cs: "?cs = map (\<lambda>(x, y, z). Vec3 x y z) (filter ?P ?ixs)"
    by (simp only: buildBox_processed concat3_filter_product)
  have "inj (\<lambda>(x, y, z). Vec3 x y z)"
    by (auto simp: inj_on_def)
  then have inj: "inj_on (\<lambda>(x, y, z). Vec3 x y z) (set (filter ?P ?ixs))"
    by (rule inj_on_subset) simp
  have "distinct (filter ?P ?ixs)"
    by (simp add: distinct_product)
  then have 2: "distinct ?cs"
    unfolding cs distinct_map using inj by simp
  have ixs: "set (filter ?P ?ixs) = {(x, y, z). min x1 x2 \<le> x \<and> x \<le> max x1 x2 \<and> min y1 y2 \<le> y \<and> y \<le> max y1 y2 \<and>
        min z1 z2 \<le> z \<and> z \<le> max z1 z2 \<and>
        (x = min x1 x2 \<or> x = max x1 x2 \<or> y = min y1 y2 \<or> y = max y1 y2 \<or>
         z = min z1 z2 \<or> z = max z1 z2)}"
    by auto
  have 1: "set ?cs = {Vec3 x y z | x y z.
        min x1 x2 \<le> x \<and> x \<le> max x1 x2 \<and> min y1 y2 \<le> y \<and> y \<le> max y1 y2 \<and>
        min z1 z2 \<le> z \<and> z \<le> max z1 z2 \<and>
        (x = min x1 x2 \<or> x = max x1 x2 \<or> y = min y1 y2 \<or> y = max y1 y2 \<or>
         z = min z1 z2 \<or> z = max z1 z2)}"
    unfolding cs set_map ixs by (rule set_eqI) (simp add: image_iff, blast)
  have 3: "?cs =
     [Vec3 x y z. x \<leftarrow> [min x1 x2..max x1 x2], y \<leftarrow> [min y1 y2..max y1 y2], z \<leftarrow> [min z1 z2..max z1 z2],
        x = min x1 x2 \<or> x = max x1 x2 \<or> y = min y1 y2 \<or> y = max y1 y2 \<or> z = min z1 z2 \<or> z = max z1 z2]"
    by (simp only: buildBox_processed)
  have 4: "agent (snd (buildBox bot' x1 y1 z1 x2 y2 z2 blockType e)) =
     fold (\<lambda>p a. snd (placeBlockAt bot' (vx p) (vy p) (vz p) (orDefault blockType) a))
       [Vec3 x y z. x \<leftarrow> [min x1 x2..max x1 x2], y \<leftarrow> [min y1 y2..max y1 y2], z \<leftarrow> [min z1 z2..max z1 z2],
          x = min x1 x2 \<or> x = max x1 x2 \<or> y = min y1 y2 \<or> y = max y1 y2 \<or> z = min z1 z2 \<or> z = max z1 z2] e"
    by (simp only: buildBox_agent)
  have 5: "blocksPlaced (snd (buildBox bot' x1 y1 z1 x2 y2 z2 blockType e)) +
   blocksFailed (snd (buildBox bot' x1 y1 z1 x2 y2 z2 blockType e)) = int (length ?cs)"
    using placed_plus_failed(3) [of bot' x1 y1 z1 x2 y2 z2 blockType e]
    by (simp add: surplus_def)
  from 1 2 3 4 5 show ?thesis by blast
qed

theorem buildBox_shell_witness:
  "Vec3 1 1 1 \<notin> set (processed (snd (buildBox testBot 2 2 2 0 0 0 None (testWorld [Vec3 x y z. x \<leftarrow> [0..2], y \<leftarrow> [0..2], z \<leftarrow> [0..2]] [] [] [])))) \<and>
   length (processed (snd (buildBox testBot 2 2 2 0 0 0 None (testWorld [Vec3 x y z. x \<leftarrow> [0..2], y \<leftarrow> [0..2], z \<leftarrow> [0..2]] [] [] [])))) = 26 \<and>
   queried (trace (agent (snd (buildBox testBot 2 2 2 0 0 0 None (testWorld [Vec3 x y z. x \<leftarrow> [0..2], y \<leftarrow> [0..2], z \<leftarrow> [0..2]] [] [] []))))) =
     processed (snd (buildBox testBot 2 2 2 0 0 0 None (testWorld [Vec3 x y z. x \<leftarrow> [0..2], y \<leftarrow> [0..2], z \<leftarrow> [0..2]] [] [] []))) \<and>
   blocksFailed (snd (buildBox testBot 2 2 2 0 0 0 None (testWorld [Vec3 x y z. x \<leftarrow> [0..2], y \<leftarrow> [0..2], z \<leftarrow> [0..2]] [] [] []))) = 26"
proof -
  have "Vec3 1 1 1 \<notin> set (processed (snd (buildBox testBot 2 2 2 0 0 0 None (testWorld [Vec3 x y z. x \<leftarrow> [0..2], y \<leftarrow> [0..2], z \<leftarrow> [0..2]] [] [] []))))"
    using buildBox_shell [of testBot 2 2 2 0 0 0 None "(testWorld [Vec3 x y z. x \<leftarrow> [0..2], y \<leftarrow> [0..2], z \<leftarrow> [0..2]] [] [] [])",
        THEN conjunct2, THEN conjunct2, THEN conjunct2, THEN conjunct1]
    by simp
  moreover have "length (processed (snd (buildBox testBot 2 2 2 0 0 0 None (testWorld [Vec3 x y z. x \<leftarrow> [0..2], y \<leftarrow> [0..2], z \<leftarrow> [0..2]] [] [] [])))) = 26"
    by code_simp
  moreover have "queried (trace (agent (snd (buildBox testBot 2 2 2 0 0 0 None (testWorld [Vec3 x y z. x \<leftarrow> [0..2], y \<leftarrow> [0..2], z \<leftarrow> [0..2]] [] [] []))))) =
     processed (snd (buildBox testBot 2 2 2 0 0 0 None (testWorld [Vec3 x y z. x \<leftarrow> [0..2], y \<leftarrow> [0..2], z \<leftarrow> [0..2]] [] [] [])))"
    by code_simp
  moreover have "blocksFailed (snd (buildBox testBot 2 2 2 0 0 0 None (testWorld [Vec3 x y z. x \<leftarrow> [0..2], y \<leftarrow> [0..2], z \<leftarrow> [0..2]] [] [] []))) = 26"
    by code_simp
  ultimately show ?thesis by blast
qed

subsection \<open>Corner order\<close>

text \<open>
  C9. For build-box and fill-area, swapping \<open>x1\<close> with \<open>x2\<close>, \<open>y1\<close> with \<open>y2\<close> or \<open>z1\<close>
  with \<open>z2\<close> leaves the attempted coordinates the same (and in the same order).
\<close>

theorem corner_order_invariance:
  "processed (snd (buildBox bot' x1 y1 z1 x2 y2 z2 blockType e)) =
     processed (snd (buildBox bot' x2 y1 z1 x1 y2 z2 blockType e)) \<and>
   processed (snd (buildBox bot' x1 y1 z1 x2 y2 z2 blockType e)) =
     processed (snd (buildBox bot' x1 y2 z1 x2 y1 z2 blockType e)) \<and>
   processed (snd (buildBox bot' x1 y1 z1 x2 y2 z2 blockType e)) =
     processed (snd (buildBox bot' x1 y1 z2 x2 y2 z1 blockType e)) \<and>
   processed (snd (fillArea bot' x1 y1 z1 x2 y2 z2 blockType e)) =
     processed (snd (fillArea bot' x2 y1 z1 x1 y2 z2 blockType e)) \<and>
   processed (snd (fillArea bot' x1 y1 z1 x2 y2 z2 blockType e)) =
     processed (snd (fillArea bot' x1 y2 z1 x2 y1 z2 blockType e)) \<and>
   processed (snd (fillArea bot' x1 y1 z1 x2 y2 z2 blockType e)) =
     processed (snd (fillArea bot' x1 y1 z2 x2 y2 z1 blockType e))"
  unfolding buildBox_processed fillArea_processed
  by (simp only: min.commute [of x2 x1] max.commute [of x2 x1] min.commute [of y2 y1] max.commute [of y2 y1]
       min.commute [of z2 z1] max.commute [of z2 z1] simp_thms)

subsection \<open>The block type\<close>

lemma placeBlockAt_blockType:
  "placeBlockAt bot' x y z b1 = placeBlockAt bot' x y z b2"
  by (rule ext) (simp add: placeBlockAt_def placeBlockAt_body_def)

lemma placeAndCount_blockType:
  "placeAndCount bot' x y z b1 = placeAndCount bot' x y z b2"
  by (rule ext) (simp add: placeAndCount_def placeBlockAt_blockType [of bot' x y z b1 b2])

text \<open>
  C10. The material or block type given to build-wall, build-floor, build-box or fill-area
  is never consulted: for any two values of it (absent included), the handler makes the
  same calls on the bot with the same results, and returns the same response and counters.
\<close>

theorem blockType_ignored:
  "buildWall bot' startX startY startZ direction' length' height thickness' m1 e =
   buildWall bot' startX startY startZ direction' length' height thickness' m2 e \<and>
   buildFloor bot' centerX centerY centerZ width length' m1 e =
   buildFloor bot' centerX centerY centerZ width length' m2 e \<and>
   buildBox bot' x1 y1 z1 x2 y2 z2 m1 e = buildBox bot' x1 y1 z1 x2 y2 z2 m2 e \<and>
   fillArea bot' x1 y1 z1 x2 y2 z2 m1 e = fillArea bot' x1 y1 z1 x2 y2 z2 m2 e"
  unfolding buildWall_def buildFloor_def buildBox_def fillArea_def
  by (simp only: placeAndCount_blockType [of _ _ _ _ "orDefault m1" "orDefault m2"])

subsection \<open>Occupied targets\<close>

text \<open>
  C4. When the block at the target coordinate is not air, \<^verbatim>\<open>placeBlockAt\<close> returns false and
  the query of the target is the only call it makes on the bot: no movement, no look-at and
  no placement.
\<close>

theorem placeBlockAt_occupied:
  assumes "blockAt bot' (Vec3 x y z) (world e) = (Inr b, w')" and "nonAir b"
  shows "placeBlockAt bot' x y z blockType e =
           (False, \<lparr>world = w', trace = trace e @ [(BlockAt (Vec3 x y z), Block b)]\<rparr>)"
  using assms
  by (simp add: placeBlockAt_def placeBlockAt_body_def Let_def await_def bot_blockAt_def invoke_def resolve_def)

theorem placeBlockAt_occupied_witness:
  "blockAt testBot (Vec3 1 2 3) (world (testWorld [Vec3 1 2 3] [] [] [])) =
     (Inr (Some \<lparr>name = ''stone'', position = Vec3 1 2 3\<rparr>), world (testWorld [Vec3 1 2 3] [] [] [])) \<and>
   nonAir (Some \<lparr>name = ''stone'', position = Vec3 1 2 3\<rparr>) \<and>
   placeBlockAt testBot 1 2 3 ''dirt'' (testWorld [Vec3 1 2 3] [] [] []) =
     (False, \<lparr>world = world (testWorld [Vec3 1 2 3] [] [] []),
              trace = [(BlockAt (Vec3 1 2 3), Block (Some \<lparr>name = ''stone'', position = Vec3 1 2 3\<rparr>))]\<rparr>)"
proof -
  have q: "blockAt testBot (Vec3 1 2 3) (world (testWorld [Vec3 1 2 3] [] [] [])) =
     (Inr (Some \<lparr>name = ''stone'', position = Vec3 1 2 3\<rparr>), world (testWorld [Vec3 1 2 3] [] [] []))"
    by (simp add: testBot_def testWorld_def)
  have n: "nonAir (Some \<lparr>name = ''stone'', position = Vec3 1 2 3\<rparr>)"
    by (simp add: nonAir_def)
  show ?thesis
    using q n placeBlockAt_occupied [OF q n, of "''dirt''"] by (simp add: testWorld_def)
qed

subsection \<open>The log of one \<^verbatim>\<open>placeBlockAt\<close> call\<close>

lemma queried_append: "queried (xs @ ys) = queried xs @ queried ys"
  by (simp add: queried_def)

lemma queried_simps [simp]:
  "queried [] = []"
  "queried ((BlockAt p, out) # tr) = p # queried tr"
  "queried ((CanSeeBlock b, out) # tr) = queried tr"
  "queried ((CanDigBlock b, out) # tr) = queried tr"
  "queried ((Goto g, out) # tr) = queried tr"
  "queried ((LookAt p f, out) # tr) = queried tr"
  "queried ((PlaceBlock b v, out) # tr) = queried tr"
  "queried ((Dig b, out) # tr) = queried tr"
  by (simp_all add: queried_def)

lemma plus_scaled_back: "plus (plus p v) (scaled v (-1)) = p"
  by (cases p) (simp add: plus_def scaled_def)

lemma invoke_trace:
  assumes "invoke c shown f e = (r, e1)"
  shows "trace e1 = trace e @ [(c, case r of Inl err \<Rightarrow> Thrown err | Inr a \<Rightarrow> shown a)]"
  using assms by (auto simp: invoke_def split: prod.splits sum.splits)

text \<open>The steps of the loop body for one face, from the last to the first.\<close>

lemma place_run:
  assumes "tryCatch (await (bot_placeBlock bot' blk v) (\<lambda>_. resolve (Return True)))
             (\<lambda>placeError. resolve Continue) e = (r, e1)"
  shows "\<exists>new. trace e1 = trace e @ new \<and> new \<noteq> [] \<and> queried new = [] \<and>
           successively follows new \<and> faceResult v r (last new)"
  using assms
  by (auto simp: tryCatch_def await_def resolve_def bot_placeBlock_def invoke_def faceResult_def
        queried_simps placedOk_def threw_def
      split: prod.splits sum.splits)

lemma queried_other: "\<not> isBlockAt c \<Longrightarrow> queried ((c, out) # tr) = queried tr"
  by (cases c) (simp_all add: queried_simps)

lemma await_call_run:
  assumes run: "await (invoke c shown f) K e = (r, e1)"
    and c: "\<not> isPlaceBlock c" "\<not> isBlockAt c"
    and sh: "\<And>a. \<not> isThrown (shown a)"
    and K: "\<And>a e0. K a e0 = (r, e1) \<Longrightarrow>
              \<exists>new. trace e1 = trace e0 @ new \<and> new \<noteq> [] \<and> queried new = [] \<and>
                successively follows new \<and> faceResult v r (last new)"
  shows "\<exists>new. trace e1 = trace e @ new \<and> new \<noteq> [] \<and> queried new = [] \<and>
           successively follows new \<and> faceResult v r (last new)"
proof -
  obtain r0 e0 where step: "invoke c shown f e = (r0, e0)"
    by (cases "invoke c shown f e")
  then have tr: "trace e0 = trace e @ [(c, case r0 of Inl err \<Rightarrow> Thrown err | Inr a \<Rightarrow> shown a)]"
    by (rule invoke_trace)
  show ?thesis
  proof (cases r0)
    case (Inl err)
    with run step have "r = Inl err" "e1 = e0"
      by (simp_all add: await_def)
    with tr Inl c show ?thesis
      by (simp add: faceResult_def queried_other queried_simps)
  next
    case (Inr a)
    with run step have "K a e0 = (r, e1)"
      by (simp add: await_def)
    from K [OF this] obtain new where
      new: "trace e1 = trace e0 @ new" "new \<noteq> []" "queried new = []" "successively follows new"
        "faceResult v r (last new)"
      by blast
    let ?new = "(c, shown a) # new"
    have "trace e1 = trace e @ ?new" using new tr Inr by simp
    moreover have "queried ?new = []" using new c by (simp add: queried_other)
    moreover have "successively follows ?new"
      using new c sh [of a] by (simp add: successively_Cons follows_def threw_def placedOk_def)
    moreover have "faceResult v r (last ?new)" using new by simp
    ultimately show ?thesis by blast
  qed
qed

lemma look_run:
  assumes "await (bot_lookAt bot' p True) (\<lambda>_.
             tryCatch (await (bot_placeBlock bot' blk v) (\<lambda>_. resolve (Return True)))
               (\<lambda>placeError. resolve Continue)) e = (r, e1)"
  shows "\<exists>new. trace e1 = trace e @ new \<and> new \<noteq> [] \<and> queried new = [] \<and>
           successively follows new \<and> faceResult v r (last new)"
  using assms unfolding bot_lookAt_def
  by (rule await_call_run) (simp_all add: place_run)

lemma goto_run:
  assumes "await (if \<not> visible then bot_goto bot' g else resolve ()) (\<lambda>_.
           await (bot_lookAt bot' p True) (\<lambda>_.
             tryCatch (await (bot_placeBlock bot' blk v) (\<lambda>_. resolve (Return True)))
               (\<lambda>placeError. resolve Continue))) e = (r, e1)"
  shows "\<exists>new. trace e1 = trace e @ new \<and> new \<noteq> [] \<and> queried new = [] \<and>
           successively follows new \<and> faceResult v r (last new)"
proof (cases visible)
  case True
  with assms show ?thesis
    by (simp add: await_def [of "resolve ()"] resolve_def look_run)
next
  case False
  with assms have "await (bot_goto bot' g) (\<lambda>_.
           await (bot_lookAt bot' p True) (\<lambda>_.
             tryCatch (await (bot_placeBlock bot' blk v) (\<lambda>_. resolve (Return True)))
               (\<lambda>placeError. resolve Continue))) e = (r, e1)"
    by simp
  then show ?thesis
    unfolding bot_goto_def
    by (rule await_call_run) (simp_all add: look_run)
qed

lemma canSee_run:
  assumes "await (bot_canSeeBlock bot' blk) (\<lambda>visible.
           await (if \<not> visible then bot_goto bot' g else resolve ()) (\<lambda>_.
           await (bot_lookAt bot' p True) (\<lambda>_.
             tryCatch (await (bot_placeBlock bot' blk v) (\<lambda>_. resolve (Return True)))
               (\<lambda>placeError. resolve Continue)))) e = (r, e1)"
  shows "\<exists>new. trace e1 = trace e @ new \<and> new \<noteq> [] \<and> queried new = [] \<and>
           successively follows new \<and> faceResult v r (last new)"
  using assms unfolding bot_canSeeBlock_def
  by (rule await_call_run) (simp_all add: goto_run)

lemma tryFace_run:
  assumes "tryFace bot' p f e = (r, e1)"
  shows "\<exists>new. trace e1 = trace e @ new \<and> new \<noteq> [] \<and> isBlockAt (fst (hd new)) \<and>
           queried new = [plus p (vector f)] \<and> successively follows new \<and>
           faceResult (scaled (vector f) (-1)) r (last new)"
proof -
  let ?ref = "plus p (vector f)"
  obtain r0 e0 where step: "bot_blockAt bot' ?ref e = (r0, e0)"
    by (cases "bot_blockAt bot' ?ref e")
  then have tr: "trace e0 = trace e @ [(BlockAt ?ref, case r0 of Inl err \<Rightarrow> Thrown err | Inr a \<Rightarrow> Block a)]"
    by (simp add: bot_blockAt_def invoke_trace)
  have single: ?thesis
    if "e1 = e0" and "r = (case r0 of Inl err \<Rightarrow> Inl err | Inr b \<Rightarrow> Inr Continue)"
    using that tr
    by (auto simp: faceResult_def placedOk_def threw_def split: sum.splits)
  show ?thesis
  proof (cases r0)
    case (Inl err)
    with assms step have "r = Inl err" "e1 = e0"
      by (simp_all add: tryFace_def Let_def await_def)
    with Inl single show ?thesis by simp
  next
    case (Inr rb)
    show ?thesis
    proof (cases rb)
      case None
      with Inr assms step have "r = Inr Continue" "e1 = e0"
        by (simp_all add: tryFace_def Let_def await_def resolve_def)
      with Inr single show ?thesis by simp
    next
      case (Some blk)
      show ?thesis
      proof (cases "name blk = ''air''")
        case True
        with Some Inr assms step have "r = Inr Continue" "e1 = e0"
          by (simp_all add: tryFace_def Let_def await_def resolve_def)
        with Inr single show ?thesis by simp
      next
        case False
        with Some Inr assms step have
          "await (bot_canSeeBlock bot' blk) (\<lambda>visible.
           await (if \<not> visible then bot_goto bot' (GoalNear (vx ?ref) (vy ?ref) (vz ?ref) 2) else resolve ()) (\<lambda>_.
           await (bot_lookAt bot' p True) (\<lambda>_.
             tryCatch (await (bot_placeBlock bot' blk (scaled (vector f) (-1))) (\<lambda>_. resolve (Return True)))
               (\<lambda>placeError. resolve Continue)))) e0 = (r, e1)"
          by (simp add: tryFace_def Let_def await_def [of "bot_blockAt bot' ?ref"])
        from canSee_run [OF this] obtain new where
          new: "trace e1 = trace e0 @ new" "new \<noteq> []" "queried new = []" "successively follows new"
            "faceResult (scaled (vector f) (-1)) r (last new)"
          by blast
        let ?new = "(BlockAt ?ref, Block rb) # new"
        have "trace e1 = trace e @ ?new" using new tr Inr by simp
        moreover have "queried ?new = [?ref]" using new by (simp add: queried_simps)
        moreover have "successively follows ?new"
          using new by (simp add: successively_Cons follows_def threw_def placedOk_def)
        moreover have "faceResult (scaled (vector f) (-1)) r (last ?new)" using new by simp
        ultimately show ?thesis by auto
      qed
    qed
  qed
qed

text \<open>The loop over the faces.\<close>

lemma tryFaces_run:
  assumes "tryFaces bot' p fs e = (r, e1)"
  shows "\<exists>k new. k \<le> length fs \<and> trace e1 = trace e @ new \<and>
           (new \<noteq> [] \<longrightarrow> isBlockAt (fst (hd new))) \<and>
           queried new = map (\<lambda>f. plus p (vector f)) (take k fs) \<and>
           successively follows new \<and>
           (case r of
              Inl err \<Rightarrow> new \<noteq> [] \<and> snd (last new) = Thrown err \<and> \<not> isPlaceBlock (fst (last new))
            | Inr (Return b) \<Rightarrow> b \<and> new \<noteq> [] \<and>
                (\<exists>blk v. last new = (PlaceBlock blk v, Done) \<and> plus (last (queried new)) v = p)
            | Inr Continue \<Rightarrow>
                k = length fs \<and>
                (new \<noteq> [] \<longrightarrow> \<not> placedOk (last new) \<and> (threw (last new) \<longrightarrow> isPlaceBlock (fst (last new)))))"
  using assms
proof (induction fs arbitrary: e)
  case Nil
  then have "r = Inr Continue" "e1 = e" by simp_all
  then show ?case by simp
next
  case (Cons f rest)
  obtain rf ef where face: "tryFace bot' p f e = (rf, ef)"
    by (cases "tryFace bot' p f e")
  from tryFace_run [OF face] obtain newf where
    newf: "trace ef = trace e @ newf" "newf \<noteq> []" "isBlockAt (fst (hd newf))"
      "queried newf = [plus p (vector f)]" "successively follows newf"
      "faceResult (scaled (vector f) (-1)) rf (last newf)"
    by blast
  have stop: ?case if "r = rf" "e1 = ef" "rf \<noteq> Inr Continue"
  proof -
    have "(case r of
              Inl err \<Rightarrow> newf \<noteq> [] \<and> snd (last newf) = Thrown err \<and> \<not> isPlaceBlock (fst (last newf))
            | Inr (Return b) \<Rightarrow> b \<and> newf \<noteq> [] \<and>
                (\<exists>blk v. last newf = (PlaceBlock blk v, Done) \<and> plus (last (queried newf)) v = p)
            | Inr Continue \<Rightarrow>
                (1::nat) = length (f # rest) \<and>
                (newf \<noteq> [] \<longrightarrow> \<not> placedOk (last newf) \<and> (threw (last newf) \<longrightarrow> isPlaceBlock (fst (last newf)))))"
      using that newf
      by (auto simp: faceResult_def plus_scaled_back split: sum.splits flow.splits)
    moreover have "queried newf = map (\<lambda>f. plus p (vector f)) (take 1 (f # rest))"
      using newf by simp
    moreover have "(1::nat) \<le> length (f # rest)" by simp
    ultimately show ?thesis
      using newf that by blast
  qed
  show ?case
  proof (cases rf)
    case (Inl err)
    with Cons.prems face have "r = rf" "e1 = ef" by simp_all
    with Inl stop show ?thesis by simp
  next
    case (Inr fl)
    show ?thesis
    proof (cases fl)
      case (Return b)
      with Inr Cons.prems face have "r = rf" "e1 = ef" by simp_all
      with Inr Return stop show ?thesis by simp
    next
      case Continue
      with Inr Cons.prems face have "tryFaces bot' p rest ef = (r, e1)" by simp
      from Cons.IH [OF this] obtain k new where
        new: "k \<le> length rest" "trace e1 = trace ef @ new"
          "new \<noteq> [] \<longrightarrow> isBlockAt (fst (hd new))"
          "queried new = map (\<lambda>f. plus p (vector f)) (take k rest)"
          "successively follows new"
          "(case r of
              Inl err \<Rightarrow> new \<noteq> [] \<and> snd (last new) = Thrown err \<and> \<not> isPlaceBlock (fst (last new))
            | Inr (Return b) \<Rightarrow> b \<and> new \<noteq> [] \<and>
                (\<exists>blk v. last new = (PlaceBlock blk v, Done) \<and> plus (last (queried new)) v = p)
            | Inr Continue \<Rightarrow>
                k = length rest \<and>
                (new \<noteq> [] \<longrightarrow> \<not> placedOk (last new) \<and> (threw (last new) \<longrightarrow> isPlaceBlock (fst (last new)))))"
        by blast
      from newf Inr Continue have lastf: "\<not> placedOk (last newf)" "threw (last newf) \<longrightarrow> isPlaceBlock (fst (last newf))"
        by (simp_all add: faceResult_def)
      let ?new = "newf @ new"
      have 1: "Suc k \<le> length (f # rest)" using new by simp
      have 2: "trace e1 = trace e @ ?new" using new newf by simp
      have 3: "?new \<noteq> [] \<longrightarrow> isBlockAt (fst (hd ?new))" using newf by simp
      have 4: "queried ?new = map (\<lambda>f. plus p (vector f)) (take (Suc k) (f # rest))"
        using new newf by (simp add: queried_append)
      have 5: "successively follows ?new"
        using new newf lastf by (auto simp: successively_append_iff follows_def)
      have 6: "(case r of
              Inl err \<Rightarrow> ?new \<noteq> [] \<and> snd (last ?new) = Thrown err \<and> \<not> isPlaceBlock (fst (last ?new))
            | Inr (Return b) \<Rightarrow> b \<and> ?new \<noteq> [] \<and>
                (\<exists>blk v. last ?new = (PlaceBlock blk v, Done) \<and> plus (last (queried ?new)) v = p)
            | Inr Continue \<Rightarrow>
                Suc k = length (f # rest) \<and>
                (?new \<noteq> [] \<longrightarrow> \<not> placedOk (last ?new) \<and> (threw (last ?new) \<longrightarrow> isPlaceBlock (fst (last ?new)))))"
      proof (cases r)
        case (Inl err)
        with new show ?thesis by simp
      next
        case r: (Inr fl')
        show ?thesis
        proof (cases fl')
          case (Return b)
          with r new obtain blk v where
            b: "b" "new \<noteq> []" "last new = (PlaceBlock blk v, Done)" "plus (last (queried new)) v = p"
            by auto
          have "queried new \<noteq> []"
          proof
            assume "queried new = []"
            from b(2) new(3) obtain q out tl where "new = (BlockAt q, out) # tl"
              by (cases new; cases "hd new"; cases "fst (hd new)") auto
            with \<open>queried new = []\<close> show False by simp
          qed
          with b r Return show ?thesis by (simp add: queried_append)
        next
          case Continue
          with r new lastf newf show ?thesis by (cases "new = []") simp_all
        qed
      qed
      from 1 2 3 4 5 6 show ?thesis by blast
    qed
  qed
qed

lemma face_positions:
  "map (\<lambda>f. plus (Vec3 x y z) (vector f)) faces =
     [Vec3 x (y - 1) z, Vec3 x y (z - 1), Vec3 x y (z + 1), Vec3 (x + 1) y z, Vec3 (x - 1) y z, Vec3 x (y + 1) z]"
  by (simp add: faces_def plus_def)

lemma placeBlockAt_run:
  assumes "placeBlockAt bot' x y z blockType e = (success, e1)"
  shows "\<exists>k out new. k \<le> 6 \<and> trace e1 = trace e @ (BlockAt (Vec3 x y z), out) # new \<and>
           out = (case fst (blockAt bot' (Vec3 x y z) (world e)) of Inl err \<Rightarrow> Thrown err | Inr b \<Rightarrow> Block b) \<and>
           queried new = take k [Vec3 x (y - 1) z, Vec3 x y (z - 1), Vec3 x y (z + 1),
                                 Vec3 (x + 1) y z, Vec3 (x - 1) y z, Vec3 x (y + 1) z] \<and>
           successively follows ((BlockAt (Vec3 x y z), out) # new) \<and>
           (success \<longleftrightarrow> new \<noteq> [] \<and> placedOk (last new)) \<and>
           (success \<longrightarrow> (\<exists>blk v. last new = (PlaceBlock blk v, Done) \<and> plus (last (queried new)) v = Vec3 x y z)) \<and>
           (new \<noteq> [] \<and> threw (last new) \<and> isPlaceBlock (fst (last new)) \<longrightarrow> k = 6) \<and>
           (\<forall>b. out = Block b \<and> \<not> nonAir b \<longrightarrow>
              1 \<le> k \<and> new \<noteq> [] \<and>
              (k = 6 \<or> success \<or> threw (last new) \<and> \<not> isPlaceBlock (fst (last new))))"
proof -
  let ?p = "Vec3 x y z"
  let ?six = "[Vec3 x (y - 1) z, Vec3 x y (z - 1), Vec3 x y (z + 1),
               Vec3 (x + 1) y z, Vec3 (x - 1) y z, Vec3 x (y + 1) z]"
  obtain r0 e0 where step: "bot_blockAt bot' ?p e = (r0, e0)"
    by (cases "bot_blockAt bot' ?p e")
  let ?out = "case r0 of Inl err \<Rightarrow> Thrown err | Inr a \<Rightarrow> Block a"
  from step have tr: "trace e0 = trace e @ [(BlockAt ?p, ?out)]"
    by (simp add: bot_blockAt_def invoke_trace)
  from step have r0: "r0 = fst (blockAt bot' ?p (world e))"
    by (auto simp: bot_blockAt_def invoke_def split: prod.splits sum.splits)
  have early: ?thesis if "\<not> success" "e1 = e0" "\<forall>b. ?out = Block b \<longrightarrow> nonAir b"
  proof -
    have "queried [] = take 0 ?six" by simp
    moreover have "successively follows [(BlockAt ?p, ?out)]" by simp
    ultimately show ?thesis
      using that tr r0 by (intro exI [of _ 0] exI [of _ ?out] exI [of _ "[]"]) simp
  qed
  show ?thesis
  proof (cases r0)
    case (Inl err)
    with assms step have "\<not> success" "e1 = e0"
      by (simp_all add: placeBlockAt_def placeBlockAt_body_def Let_def await_def)
    moreover from Inl have "\<forall>b. ?out = Block b \<longrightarrow> nonAir b" by simp
    ultimately show ?thesis by (rule early)
  next
    case (Inr b)
    show ?thesis
    proof (cases "nonAir b")
      case True
      with Inr assms step have "\<not> success" "e1 = e0"
        by (simp_all add: placeBlockAt_def placeBlockAt_body_def Let_def await_def resolve_def)
      moreover from Inr True have "\<forall>b. ?out = Block b \<longrightarrow> nonAir b" by simp
      ultimately show ?thesis by (rule early)
    next
      case False
      obtain r e2 where loop: "tryFaces bot' ?p faces e0 = (r, e2)"
        by (cases "tryFaces bot' ?p faces e0")
      with False Inr assms step have res: "e1 = e2" "success = (r = Inr (Return True))"
        by (auto simp: placeBlockAt_def placeBlockAt_body_def Let_def await_def resolve_def
              split: sum.splits flow.splits)
      from tryFaces_run [OF loop] obtain k new where
        new: "k \<le> length faces" "trace e2 = trace e0 @ new"
          "new \<noteq> [] \<longrightarrow> isBlockAt (fst (hd new))"
          "queried new = map (\<lambda>f. plus ?p (vector f)) (take k faces)"
          "successively follows new"
          "(case r of
              Inl err \<Rightarrow> new \<noteq> [] \<and> snd (last new) = Thrown err \<and> \<not> isPlaceBlock (fst (last new))
            | Inr (Return b) \<Rightarrow> b \<and> new \<noteq> [] \<and>
                (\<exists>blk v. last new = (PlaceBlock blk v, Done) \<and> plus (last (queried new)) v = ?p)
            | Inr Continue \<Rightarrow>
                k = length faces \<and>
                (new \<noteq> [] \<longrightarrow> \<not> placedOk (last new) \<and> (threw (last new) \<longrightarrow> isPlaceBlock (fst (last new)))))"
        by blast
      have 1: "k \<le> 6" using new(1) by (simp add: faces_def)
      have 2: "trace e1 = trace e @ (BlockAt ?p, ?out) # new"
        using new(2) tr res by simp
      have 3: "queried new = take k ?six"
        using new(4) by (simp add: take_map [symmetric] face_positions)
      have 4: "successively follows ((BlockAt ?p, ?out) # new)"
        using new(5) Inr by (simp add: successively_Cons follows_def threw_def placedOk_def)
      have 5: "success \<longleftrightarrow> new \<noteq> [] \<and> placedOk (last new)"
        using new(6) res
        by (auto simp: placedOk_def threw_def split: sum.splits flow.splits)
      have 6: "success \<longrightarrow> (\<exists>blk v. last new = (PlaceBlock blk v, Done) \<and> plus (last (queried new)) v = ?p)"
        using new(6) res by auto
      have 7: "new \<noteq> [] \<and> threw (last new) \<and> isPlaceBlock (fst (last new)) \<longrightarrow> k = 6"
        using new(6)
        by (auto simp: threw_def faces_def split: sum.splits flow.splits)
      have nonempty: "queried new \<noteq> []" if "new \<noteq> []"
      proof -
        from that new(3) obtain q out' rest where "new = (BlockAt q, out') # rest"
          by (cases new; cases "hd new"; cases "fst (hd new)") auto
        then show ?thesis by simp
      qed
      have 8: "1 \<le> k \<and> new \<noteq> [] \<and>
              (k = 6 \<or> success \<or> threw (last new) \<and> \<not> isPlaceBlock (fst (last new)))"
      proof (cases "r = Inr Continue")
        case True
        with new(6) have k: "k = 6" by (simp add: faces_def)
        with 3 have "queried new \<noteq> []" by simp
        then have "new \<noteq> []" by auto
        with k show ?thesis by simp
      next
        case False
        with new(6) res have ne: "new \<noteq> []"
          and stop: "success \<or> threw (last new) \<and> \<not> isPlaceBlock (fst (last new))"
          by (auto simp: threw_def split: sum.splits flow.splits)
        from nonempty [OF ne] 3 have "k \<noteq> 0" by auto
        with ne stop show ?thesis by simp
      qed
      from 1 2 3 4 5 6 7 8 r0 show ?thesis by blast
    qed
  qed
qed


lemma follows_thrown_next:
  assumes "successively follows tr" and "tr = pre @ (c, Thrown err) # post"
  shows "post = [] \<or> isPlaceBlock c \<and> isBlockAt (fst (hd post))"
  using assms
  by (auto simp: successively_append_iff successively_Cons follows_def threw_def placedOk_def)

subsection \<open>The order of the faces\<close>




subsection \<open>Errors inside \<^verbatim>\<open>placeBlockAt\<close>\<close>

text \<open>
  C2 as stated fails: an error raised by the movement is not caught per face. In the world
  below the block under the target is hidden and cannot be reached, and the block to the
  north is solid. \<^verbatim>\<open>goto\<close> raises, the outer \<^verbatim>\<open>catch\<close> returns false, and the north face is
  never examined.
\<close>

theorem movement_error_ends_call:
  "placeBlockAt testBot 0 0 0 ''stone''
     (testWorld [Vec3 0 (-1) 0, Vec3 0 0 (-1)] [Vec3 0 (-1) 0] [Vec3 0 (-1) 0] []) =
     (False,
      \<lparr>world = \<lparr>solids = [Vec3 0 (-1) 0, Vec3 0 0 (-1)], hidden = [Vec3 0 (-1) 0],
                blocked = [Vec3 0 (-1) 0], refused = []\<rparr>,
       trace =
         [(BlockAt (Vec3 0 0 0), Block (Some \<lparr>name = ''air'', position = Vec3 0 0 0\<rparr>)),
          (BlockAt (Vec3 0 (-1) 0), Block (Some \<lparr>name = ''stone'', position = Vec3 0 (-1) 0\<rparr>)),
          (CanSeeBlock \<lparr>name = ''stone'', position = Vec3 0 (-1) 0\<rparr>, Bool False),
          (Goto (GoalNear 0 (-1) 0 2), Thrown (Error ''No path''))]\<rparr>) \<and>
   nonAir (Some \<lparr>name = ''stone'', position = Vec3 0 0 (-1)\<rparr>) \<and>
   fst (blockAt testBot (Vec3 0 0 (-1))
     \<lparr>solids = [Vec3 0 (-1) 0, Vec3 0 0 (-1)], hidden = [Vec3 0 (-1) 0],
      blocked = [Vec3 0 (-1) 0], refused = []\<rparr>) =
     Inr (Some \<lparr>name = ''stone'', position = Vec3 0 0 (-1)\<rparr>)"
  by code_simp

text \<open>
  C2, amended. \<^verbatim>\<open>placeBlockAt\<close> always returns a boolean: an error that leaves the body of
  its \<^verbatim>\<open>try\<close> is turned into false. In the log of a call, a placement that raised is either
  the last call (then all six faces have been examined and the result is false) or is
  followed by a query, which by the order of the queries is that of the next face: the
  error is caught for that face only. A call
  other than a placement (a query, the visibility test, the movement, the look-at) that
  raised is the last call, and the result is false: no further face is tried.
\<close>

theorem placeBlockAt_errors:
  "(\<forall>err e'. placeBlockAt_body bot' x y z blockType e = (Inl err, e') \<longrightarrow>
      placeBlockAt bot' x y z blockType e = (False, e')) \<and>
   (\<exists>k out new. k \<le> 6 \<and>
      trace (snd (placeBlockAt bot' x y z blockType e)) = trace e @ (BlockAt (Vec3 x y z), out) # new \<and>
      queried new = take k [Vec3 x (y - 1) z, Vec3 x y (z - 1), Vec3 x y (z + 1),
                            Vec3 (x + 1) y z, Vec3 (x - 1) y z, Vec3 x (y + 1) z] \<and>
      (\<forall>pre c err post. (BlockAt (Vec3 x y z), out) # new = pre @ (c, Thrown err) # post \<longrightarrow>
         (if isPlaceBlock c
          then (post = [] \<and> k = 6 \<and> \<not> fst (placeBlockAt bot' x y z blockType e)) \<or>
               (post \<noteq> [] \<and> isBlockAt (fst (hd post)))
          else post = [] \<and> \<not> fst (placeBlockAt bot' x y z blockType e))))"
proof -
  obtain success e1 where res: "placeBlockAt bot' x y z blockType e = (success, e1)"
    by (cases "placeBlockAt bot' x y z blockType e")
  from placeBlockAt_run [OF res] obtain k out new where
    run: "k \<le> 6" "trace e1 = trace e @ (BlockAt (Vec3 x y z), out) # new"
      "queried new = take k [Vec3 x (y - 1) z, Vec3 x y (z - 1), Vec3 x y (z + 1),
                                 Vec3 (x + 1) y z, Vec3 (x - 1) y z, Vec3 x (y + 1) z]"
      "successively follows ((BlockAt (Vec3 x y z), out) # new)"
      "success \<longleftrightarrow> new \<noteq> [] \<and> placedOk (last new)"
      "new \<noteq> [] \<and> threw (last new) \<and> isPlaceBlock (fst (last new)) \<longrightarrow> k = 6"
    by blast
  have "if isPlaceBlock c
          then (post = [] \<and> k = 6 \<and> \<not> success) \<or> (post \<noteq> [] \<and> isBlockAt (fst (hd post)))
          else post = [] \<and> \<not> success"
    if split: "(BlockAt (Vec3 x y z), out) # new = pre @ (c, Thrown err) # post" for pre c err post
  proof -
    from follows_thrown_next [OF run(4) split]
    have after: "post = [] \<or> isPlaceBlock c \<and> isBlockAt (fst (hd post))" .
    have "\<not> success" if "post = []"
    proof
      assume success
      with run(5) have "new \<noteq> []" "placedOk (last new)" by simp_all
      moreover from split \<open>post = []\<close> have "last ((BlockAt (Vec3 x y z), out) # new) = (c, Thrown err)"
        by simp
      ultimately show False by (simp add: placedOk_def)
    qed
    moreover have "k = 6" if "post = []" "isPlaceBlock c"
    proof -
      from split that have "new \<noteq> []"
        by (cases pre) auto
      moreover from split that(1) have "last ((BlockAt (Vec3 x y z), out) # new) = (c, Thrown err)"
        by simp
      ultimately have "last new = (c, Thrown err)" by simp
      with \<open>new \<noteq> []\<close> that(2) run(6) show ?thesis
        by (simp add: threw_def)
    qed
    ultimately show ?thesis using after by auto
  qed
  with res run(1,2,3) have tail: "\<exists>k out new. k \<le> 6 \<and>
      trace (snd (placeBlockAt bot' x y z blockType e)) = trace e @ (BlockAt (Vec3 x y z), out) # new \<and>
      queried new = take k [Vec3 x (y - 1) z, Vec3 x y (z - 1), Vec3 x y (z + 1),
                            Vec3 (x + 1) y z, Vec3 (x - 1) y z, Vec3 x (y + 1) z] \<and>
      (\<forall>pre c err post. (BlockAt (Vec3 x y z), out) # new = pre @ (c, Thrown err) # post \<longrightarrow>
         (if isPlaceBlock c
          then (post = [] \<and> k = 6 \<and> \<not> fst (placeBlockAt bot' x y z blockType e)) \<or>
               (post \<noteq> [] \<and> isBlockAt (fst (hd post)))
          else post = [] \<and> \<not> fst (placeBlockAt bot' x y z blockType e)))"
    by (simp only: fst_conv snd_conv) blast
  have "\<forall>err e'. placeBlockAt_body bot' x y z blockType e = (Inl err, e') \<longrightarrow>
      placeBlockAt bot' x y z blockType e = (False, e')"
    by (simp add: placeBlockAt_def)
  with tail show ?thesis by blast
qed

theorem placeBlockAt_errors_witness:
  "placeBlockAt testBot 0 0 0 ''stone'' (testWorld [Vec3 0 (-1) 0, Vec3 0 0 (-1)] [] [] [Vec3 0 (-1) 0]) =
     (True,
      \<lparr>world = \<lparr>solids = [Vec3 0 0 0, Vec3 0 (-1) 0, Vec3 0 0 (-1)], hidden = [],
                blocked = [], refused = [Vec3 0 (-1) 0]\<rparr>,
       trace =
         [(BlockAt (Vec3 0 0 0), Block (Some \<lparr>name = ''air'', position = Vec3 0 0 0\<rparr>)),
          (BlockAt (Vec3 0 (-1) 0), Block (Some \<lparr>name = ''stone'', position = Vec3 0 (-1) 0\<rparr>)),
          (CanSeeBlock \<lparr>name = ''stone'', position = Vec3 0 (-1) 0\<rparr>, Bool True),
          (LookAt (Vec3 0 0 0) True, Done),
          (PlaceBlock \<lparr>name = ''stone'', position = Vec3 0 (-1) 0\<rparr> (Vec3 0 1 0),
           Thrown (Error ''Cannot place''))] @
         [(BlockAt (Vec3 0 0 (-1)), Block (Some \<lparr>name = ''stone'', position = Vec3 0 0 (-1)\<rparr>)),
          (CanSeeBlock \<lparr>name = ''stone'', position = Vec3 0 0 (-1)\<rparr>, Bool True),
          (LookAt (Vec3 0 0 0) True, Done),
          (PlaceBlock \<lparr>name = ''stone'', position = Vec3 0 0 (-1)\<rparr> (Vec3 0 0 1), Done)]\<rparr>) \<and>
   isBlockAt (fst (hd
     [(BlockAt (Vec3 0 0 (-1)), Block (Some \<lparr>name = ''stone'', position = Vec3 0 0 (-1)\<rparr>)),
      (CanSeeBlock \<lparr>name = ''stone'', position = Vec3 0 0 (-1)\<rparr>, Bool True),
      (LookAt (Vec3 0 0 0) True, Done),
      (PlaceBlock \<lparr>name = ''stone'', position = Vec3 0 0 (-1)\<rparr> (Vec3 0 0 1), Done)]))"
proof -
  let ?pre = "[(BlockAt (Vec3 0 0 0), Block (Some \<lparr>name = ''air'', position = Vec3 0 0 0\<rparr>)),
          (BlockAt (Vec3 0 (-1) 0), Block (Some \<lparr>name = ''stone'', position = Vec3 0 (-1) 0\<rparr>)),
          (CanSeeBlock \<lparr>name = ''stone'', position = Vec3 0 (-1) 0\<rparr>, Bool True),
          (LookAt (Vec3 0 0 0) True, Done)]"
  let ?c = "PlaceBlock \<lparr>name = ''stone'', position = Vec3 0 (-1) 0\<rparr> (Vec3 0 1 0)"
  let ?post = "[(BlockAt (Vec3 0 0 (-1)), Block (Some \<lparr>name = ''stone'', position = Vec3 0 0 (-1)\<rparr>)),
      (CanSeeBlock \<lparr>name = ''stone'', position = Vec3 0 0 (-1)\<rparr>, Bool True),
      (LookAt (Vec3 0 0 0) True, Done),
      (PlaceBlock \<lparr>name = ''stone'', position = Vec3 0 0 (-1)\<rparr> (Vec3 0 0 1), Done)]"
  let ?E = "\<lparr>world = \<lparr>solids = [Vec3 0 0 0, Vec3 0 (-1) 0, Vec3 0 0 (-1)], hidden = [],
                blocked = [], refused = [Vec3 0 (-1) 0]\<rparr>,
       trace = (?pre @ [(?c, Thrown (Error ''Cannot place''))]) @ ?post\<rparr>"
  have run: "placeBlockAt testBot 0 0 0 ''stone'' (testWorld [Vec3 0 (-1) 0, Vec3 0 0 (-1)] [] [] [Vec3 0 (-1) 0]) = (True, ?E)"
    by code_simp
  from placeBlockAt_errors [of testBot 0 0 0 "''stone''" "(testWorld [Vec3 0 (-1) 0, Vec3 0 0 (-1)] [] [] [Vec3 0 (-1) 0])"]
  obtain k out new where
    tr: "trace (snd (placeBlockAt testBot 0 0 0 ''stone'' (testWorld [Vec3 0 (-1) 0, Vec3 0 0 (-1)] [] [] [Vec3 0 (-1) 0]))) =
           trace (testWorld [Vec3 0 (-1) 0, Vec3 0 0 (-1)] [] [] [Vec3 0 (-1) 0]) @ (BlockAt (Vec3 0 0 0), out) # new"
    and caught: "\<And>pre c err post. (BlockAt (Vec3 0 0 0), out) # new = pre @ (c, Thrown err) # post \<Longrightarrow>
         (if isPlaceBlock c
          then (post = [] \<and> k = (6::nat) \<and>
                \<not> fst (placeBlockAt testBot 0 0 0 ''stone'' (testWorld [Vec3 0 (-1) 0, Vec3 0 0 (-1)] [] [] [Vec3 0 (-1) 0]))) \<or>
               (post \<noteq> [] \<and> isBlockAt (fst (hd post)))
          else post = [] \<and> \<not> fst (placeBlockAt testBot 0 0 0 ''stone'' (testWorld [Vec3 0 (-1) 0, Vec3 0 0 (-1)] [] [] [Vec3 0 (-1) 0])))"
    by blast
  from tr run have "(BlockAt (Vec3 0 0 0), out) # new = ?pre @ (?c, Thrown (Error ''Cannot place'')) # ?post"
    by (simp add: testWorld_def)
  from caught [OF this] run have "isBlockAt (fst (hd ?post))"
    by simp
  with run show ?thesis by simp
qed

subsection \<open>clear-area\<close>

lemma await_resolve: "await (resolve a) K = K a"
  by (rule ext) (simp add: await_def resolve_def)

lemma await_assoc: "await (await m f) K = await m (\<lambda>a. await (f a) K)"
  by (rule ext) (simp add: await_def split: prod.splits sum.splits)

lemma dig_await_run:
  assumes run: "await (invoke c shown f) K e = (r, e1)"
    and c: "\<not> isDig c" "\<not> isBlockAt c"
    and sh: "\<And>a. \<not> isThrown (shown a)"
    and K: "\<And>a e0. K a e0 = (r, e1) \<Longrightarrow> \<exists>new. trace e1 = trace e0 @ new \<and> digTail blk r new"
  shows "\<exists>new. trace e1 = trace e @ new \<and> digTail blk r new"
proof -
  obtain r0 e0 where step: "invoke c shown f e = (r0, e0)"
    by (cases "invoke c shown f e")
  then have tr: "trace e0 = trace e @ [(c, case r0 of Inl err \<Rightarrow> Thrown err | Inr a \<Rightarrow> shown a)]"
    by (rule invoke_trace)
  show ?thesis
  proof (cases r0)
    case (Inl err)
    with run step have "r = Inl err" "e1 = e0"
      by (simp_all add: await_def)
    with tr Inl c show ?thesis
      by (simp add: digTail_def queried_other)
  next
    case (Inr a)
    with run step have "K a e0 = (r, e1)"
      by (simp add: await_def)
    from K [OF this] obtain new where
      new: "trace e1 = trace e0 @ new" "digTail blk r new"
      by blast
    let ?new = "(c, shown a) # new"
    have "trace e1 = trace e @ ?new" using new tr Inr by simp
    moreover have "last ?new = last new"
      using new(2) by (simp add: digTail_def)
    then have "digTail blk r ?new"
      using new(2) c sh [of a] by (auto simp: digTail_def queried_other threw_def simp del: last.simps split: sum.splits)
    ultimately show ?thesis by blast
  qed
qed

lemma dig_run:
  assumes "await (bot_dig bot' blk) (\<lambda>_. resolve True) e = (r, e1)"
  shows "\<exists>new. trace e1 = trace e @ new \<and> digTail blk r new"
  using assms
  by (auto simp: await_def resolve_def bot_dig_def invoke_def digTail_def split: prod.splits sum.splits)

lemma move_dig_run:
  assumes "await (if mustMove then bot_goto bot' g else resolve ()) (\<lambda>_.
           await (bot_dig bot' blk) (\<lambda>_. resolve True)) e = (r, e1)"
  shows "\<exists>new. trace e1 = trace e @ new \<and> digTail blk r new"
proof (cases mustMove)
  case False
  with assms show ?thesis
    by (simp add: await_resolve dig_run)
next
  case True
  with assms have "await (bot_goto bot' g) (\<lambda>_.
           await (bot_dig bot' blk) (\<lambda>_. resolve True)) e = (r, e1)"
    by simp
  then show ?thesis
    unfolding bot_goto_def
    by (rule dig_await_run) (simp_all add: dig_run)
qed

lemma canDig_run:
  assumes "await (bot_canDigBlock bot' blk) (\<lambda>canDig.
           await (if \<not> canDig then resolve True
                  else await (bot_canSeeBlock bot' blk) (\<lambda>canSee. resolve (\<not> canSee))) (\<lambda>mustMove.
           await (if mustMove then bot_goto bot' g else resolve ()) (\<lambda>_.
           await (bot_dig bot' blk) (\<lambda>_. resolve True)))) e = (r, e1)"
  shows "\<exists>new. trace e1 = trace e @ new \<and> digTail blk r new"
  using assms unfolding bot_canDigBlock_def
proof (rule dig_await_run)
  fix canDig e0
  assume K: "await (if \<not> canDig then resolve True
                  else await (bot_canSeeBlock bot' blk) (\<lambda>canSee. resolve (\<not> canSee))) (\<lambda>mustMove.
           await (if mustMove then bot_goto bot' g else resolve ()) (\<lambda>_.
           await (bot_dig bot' blk) (\<lambda>_. resolve True))) e0 = (r, e1)"
  show "\<exists>new. trace e1 = trace e0 @ new \<and> digTail blk r new"
  proof (cases canDig)
    case False
    with K have "await (if True then bot_goto bot' g else resolve ()) (\<lambda>_.
           await (bot_dig bot' blk) (\<lambda>_. resolve True)) e0 = (r, e1)"
      by (simp add: await_resolve)
    then show ?thesis by (rule move_dig_run)
  next
    case True
    with K have "await (invoke (CanSeeBlock blk) Bool (canSeeBlock bot' blk)) (\<lambda>canSee.
           await (if \<not> canSee then bot_goto bot' g else resolve ()) (\<lambda>_.
           await (bot_dig bot' blk) (\<lambda>_. resolve True))) e0 = (r, e1)"
      by (simp add: await_assoc await_resolve bot_canSeeBlock_def)
    then show ?thesis
      by (rule dig_await_run) (simp_all add: move_dig_run)
  qed
qed simp_all

lemma digAt_run:
  assumes "digAt bot' x y z e = (r, e1)"
  shows "\<exists>out new. trace e1 = trace e @ (BlockAt (Vec3 x y z), out) # new \<and>
           (case out of
              Block b \<Rightarrow>
                (case b of
                   None \<Rightarrow> new = [] \<and> r = Inr False
                 | Some blk \<Rightarrow>
                     if name blk \<noteq> ''air'' then digTail blk r new else new = [] \<and> r = Inr False)
            | Thrown err \<Rightarrow> new = [] \<and> r = Inl err
            | _ \<Rightarrow> False)"
proof -
  let ?p = "Vec3 x y z"
  obtain r0 e0 where step: "bot_blockAt bot' ?p e = (r0, e0)"
    by (cases "bot_blockAt bot' ?p e")
  then have tr: "trace e0 = trace e @ [(BlockAt ?p, case r0 of Inl err \<Rightarrow> Thrown err | Inr a \<Rightarrow> Block a)]"
    by (simp add: bot_blockAt_def invoke_trace)
  show ?thesis
  proof (cases r0)
    case (Inl err)
    with assms step have "r = Inl err" "e1 = e0"
      by (simp_all add: digAt_def Let_def await_def)
    with tr Inl show ?thesis by (intro exI [of _ "Thrown err"] exI [of _ "[]"]) simp
  next
    case (Inr b)
    show ?thesis
    proof (cases b)
      case None
      with Inr assms step have "r = Inr False" "e1 = e0"
        by (simp_all add: digAt_def Let_def await_def resolve_def)
      with tr Inr None show ?thesis by (intro exI [of _ "Block None"] exI [of _ "[]"]) simp
    next
      case (Some blk)
      show ?thesis
      proof (cases "name blk = ''air''")
        case True
        with Some Inr assms step have "r = Inr False" "e1 = e0"
          by (simp_all add: digAt_def Let_def await_def resolve_def)
        with tr Inr Some True show ?thesis
          by (intro exI [of _ "Block (Some blk)"] exI [of _ "[]"]) simp
      next
        case False
        with Some Inr assms step have
          "await (bot_canDigBlock bot' blk) (\<lambda>canDig.
           await (if \<not> canDig then resolve True
                  else await (bot_canSeeBlock bot' blk) (\<lambda>canSee. resolve (\<not> canSee))) (\<lambda>mustMove.
           await (if mustMove then bot_goto bot' (GoalNear x y z 2) else resolve ()) (\<lambda>_.
           await (bot_dig bot' blk) (\<lambda>_. resolve True)))) e0 = (r, e1)"
          by (simp add: digAt_def Let_def await_def [of "bot_blockAt bot' ?p"])
        from canDig_run [OF this] obtain new where
          new: "trace e1 = trace e0 @ new" "digTail blk r new"
          by blast
        with tr Inr Some False show ?thesis
          by (intro exI [of _ "Block (Some blk)"] exI [of _ new]) simp
      qed
    qed
  qed
qed

lemma digAndCount_run:
  "\<exists>out new.
     trace (agent (digAndCount bot' x y z t)) = trace (agent t) @ (BlockAt (Vec3 x y z), out) # new \<and>
     (\<forall>ev \<in> set (butlast new). \<not> threw ev \<and> \<not> isDig (fst ev)) \<and>
     (case out of
        Block b \<Rightarrow>
          if nonAir b
          then new \<noteq> [] \<and>
               ((\<exists>blk. b = Some blk \<and> last new = (Dig blk, Done)) \<and>
                  blocksDug (digAndCount bot' x y z t) = blocksDug t + 1 \<and>
                  blocksFailed (digAndCount bot' x y z t) = blocksFailed t \<or>
                threw (last new) \<and>
                  blocksDug (digAndCount bot' x y z t) = blocksDug t \<and>
                  blocksFailed (digAndCount bot' x y z t) = blocksFailed t + 1)
          else new = [] \<and>
               blocksDug (digAndCount bot' x y z t) = blocksDug t \<and>
               blocksFailed (digAndCount bot' x y z t) = blocksFailed t
      | Thrown err \<Rightarrow>
          new = [] \<and>
          blocksDug (digAndCount bot' x y z t) = blocksDug t \<and>
          blocksFailed (digAndCount bot' x y z t) = blocksFailed t + 1
      | _ \<Rightarrow> False)"
proof -
  obtain r e1 where run: "digAt bot' x y z (agent t) = (r, e1)"
    by (cases "digAt bot' x y z (agent t)")
  from digAt_run [OF run] obtain out new where
    tr: "trace e1 = trace (agent t) @ (BlockAt (Vec3 x y z), out) # new"
    and shape: "case out of
              Block b \<Rightarrow>
                (case b of
                   None \<Rightarrow> new = [] \<and> r = Inr False
                 | Some blk \<Rightarrow>
                     if name blk \<noteq> ''air'' then digTail blk r new else new = [] \<and> r = Inr False)
            | Thrown err \<Rightarrow> new = [] \<and> r = Inl err
            | _ \<Rightarrow> False"
    by blast
  have agent: "agent (digAndCount bot' x y z t) = e1"
    and dug: "blocksDug (digAndCount bot' x y z t) = (if r = Inr True then blocksDug t + 1 else blocksDug t)"
    and failed: "blocksFailed (digAndCount bot' x y z t) = (if isl r then blocksFailed t + 1 else blocksFailed t)"
    using run by (auto simp: digAndCount_def split: sum.splits)
  have "(\<forall>ev \<in> set (butlast new). \<not> threw ev \<and> \<not> isDig (fst ev)) \<and>
     (case out of
        Block b \<Rightarrow>
          if nonAir b
          then new \<noteq> [] \<and>
               ((\<exists>blk. b = Some blk \<and> last new = (Dig blk, Done)) \<and>
                  blocksDug (digAndCount bot' x y z t) = blocksDug t + 1 \<and>
                  blocksFailed (digAndCount bot' x y z t) = blocksFailed t \<or>
                threw (last new) \<and>
                  blocksDug (digAndCount bot' x y z t) = blocksDug t \<and>
                  blocksFailed (digAndCount bot' x y z t) = blocksFailed t + 1)
          else new = [] \<and>
               blocksDug (digAndCount bot' x y z t) = blocksDug t \<and>
               blocksFailed (digAndCount bot' x y z t) = blocksFailed t
      | Thrown err \<Rightarrow>
          new = [] \<and>
          blocksDug (digAndCount bot' x y z t) = blocksDug t \<and>
          blocksFailed (digAndCount bot' x y z t) = blocksFailed t + 1
      | _ \<Rightarrow> False)"
    using shape unfolding dug failed
    by (auto simp: nonAir_def digTail_def threw_def split: outcome.splits option.splits sum.splits if_splits)
  with tr agent show ?thesis by blast
qed

lemma processed_digAndCount:
  "processed (digAndCount bot' x y z t) = processed t @ [Vec3 x y z]"
  by (simp add: digAndCount_def split: prod.splits sum.splits)

lemma fold3_coordinates:
  "fold (\<lambda>x. fold (\<lambda>y. fold (\<lambda>z. g x y z) zs) ys) xs s =
   fold (\<lambda>p. g (vx p) (vy p) (vz p))
     (concat (map (\<lambda>x. concat (map (\<lambda>y. map (\<lambda>z. Vec3 x y z) zs) ys)) xs)) s"
proof -
  have inner: "fold (\<lambda>z. g x y z) zs s = fold (\<lambda>p. g (vx p) (vy p) (vz p)) (map (\<lambda>z. Vec3 x y z) zs) s"
    for x y s
    by (simp add: fold_map comp_def)
  have middle: "fold (\<lambda>y. fold (\<lambda>z. g x y z) zs) ys s =
      fold (\<lambda>p. g (vx p) (vy p) (vz p)) (concat (map (\<lambda>y. map (\<lambda>z. Vec3 x y z) zs) ys)) s"
    for x s
    by (induction ys arbitrary: s) (simp_all add: inner)
  show ?thesis
    by (induction xs arbitrary: s) (simp_all add: middle)
qed

lemma processed_fold_digAndCount:
  "processed (fold (\<lambda>p. digAndCount bot' (vx p) (vy p) (vz p)) ps t) = processed t @ ps"
  by (induction ps arbitrary: t) (simp_all add: processed_digAndCount)

text \<open>
  C8. clear-area runs its loop body once for every coordinate of the region, in order, to
  the end, whatever was raised on the way. For one coordinate the body first queries the
  block. If that is air (or \<^verbatim>\<open>null\<close>) it makes no further call and changes neither counter.
  If it is a non-air block, the calls that follow end either with the dig of that block,
  and then \<^verbatim>\<open>blocksDug\<close> grows by one and \<^verbatim>\<open>blocksFailed\<close> stays, or with a call that raised (the
  dig, the movement or a test before it), and then \<^verbatim>\<open>blocksFailed\<close> grows by one and
  \<^verbatim>\<open>blocksDug\<close> stays; no earlier call is a dig or raised. If the query itself raises,
  \<^verbatim>\<open>blocksFailed\<close> grows by one.
\<close>

theorem clearArea_counts:
  "snd (clearArea bot' x1 y1 z1 x2 y2 z2 e) =
     fold (\<lambda>p. digAndCount bot' (vx p) (vy p) (vz p))
       [Vec3 x y z. x \<leftarrow> [min x1 x2..max x1 x2], y \<leftarrow> [min y1 y2..max y1 y2], z \<leftarrow> [min z1 z2..max z1 z2]]
       \<lparr>agent = e, blocksFailed = 0, processed = [], blocksDug = 0\<rparr> \<and>
   processed (snd (clearArea bot' x1 y1 z1 x2 y2 z2 e)) =
     [Vec3 x y z. x \<leftarrow> [min x1 x2..max x1 x2], y \<leftarrow> [min y1 y2..max y1 y2], z \<leftarrow> [min z1 z2..max z1 z2]] \<and>
   (\<forall>x y z t. \<exists>out new.
     trace (agent (digAndCount bot' x y z t)) = trace (agent t) @ (BlockAt (Vec3 x y z), out) # new \<and>
     (\<forall>ev \<in> set (butlast new). \<not> threw ev \<and> \<not> isDig (fst ev)) \<and>
     (case out of
        Block b \<Rightarrow>
          if nonAir b
          then new \<noteq> [] \<and>
               ((\<exists>blk. b = Some blk \<and> last new = (Dig blk, Done)) \<and>
                  blocksDug (digAndCount bot' x y z t) = blocksDug t + 1 \<and>
                  blocksFailed (digAndCount bot' x y z t) = blocksFailed t \<or>
                threw (last new) \<and>
                  blocksDug (digAndCount bot' x y z t) = blocksDug t \<and>
                  blocksFailed (digAndCount bot' x y z t) = blocksFailed t + 1)
          else new = [] \<and>
               blocksDug (digAndCount bot' x y z t) = blocksDug t \<and>
               blocksFailed (digAndCount bot' x y z t) = blocksFailed t
      | Thrown err \<Rightarrow>
          new = [] \<and>
          blocksDug (digAndCount bot' x y z t) = blocksDug t \<and>
          blocksFailed (digAndCount bot' x y z t) = blocksFailed t + 1
      | _ \<Rightarrow> False))"
proof -
  have loop: "snd (clearArea bot' x1 y1 z1 x2 y2 z2 e) =
     fold (\<lambda>p. digAndCount bot' (vx p) (vy p) (vz p))
       [Vec3 x y z. x \<leftarrow> [min x1 x2..max x1 x2], y \<leftarrow> [min y1 y2..max y1 y2], z \<leftarrow> [min z1 z2..max z1 z2]]
       \<lparr>agent = e, blocksFailed = 0, processed = [], blocksDug = 0\<rparr>"
    by (simp add: clearArea_def Let_def forLe_eq_fold fold3_coordinates)
  have "processed (snd (clearArea bot' x1 y1 z1 x2 y2 z2 e)) =
     [Vec3 x y z. x \<leftarrow> [min x1 x2..max x1 x2], y \<leftarrow> [min y1 y2..max y1 y2], z \<leftarrow> [min z1 z2..max z1 z2]]"
    unfolding loop by (simp add: processed_fold_digAndCount)
  with loop digAndCount_run [of bot'] show ?thesis
    by blast
qed

theorem clearArea_counts_witness:
  "processed (snd (clearArea testBot 3 0 0 0 0 0 (testWorld [Vec3 0 0 0, Vec3 1 0 0] [] [] [Vec3 1 0 0]))) =
     [Vec3 0 0 0, Vec3 1 0 0, Vec3 2 0 0, Vec3 3 0 0] \<and>
   blocksDug (snd (clearArea testBot 3 0 0 0 0 0 (testWorld [Vec3 0 0 0, Vec3 1 0 0] [] [] [Vec3 1 0 0]))) = 1 \<and>
   blocksFailed (snd (clearArea testBot 3 0 0 0 0 0 (testWorld [Vec3 0 0 0, Vec3 1 0 0] [] [] [Vec3 1 0 0]))) = 1 \<and>
   fst (clearArea testBot 3 0 0 0 0 0 (testWorld [Vec3 0 0 0, Vec3 1 0 0] [] [] [Vec3 1 0 0])) =
     createResponse ''Area clearing completed! Dug 1 blocks. 1 blocks failed to dig.'' \<and>
   queried (trace (agent (snd (clearArea testBot 3 0 0 0 0 0 (testWorld [Vec3 0 0 0, Vec3 1 0 0] [] [] [Vec3 1 0 0]))))) =
     [Vec3 0 0 0, Vec3 1 0 0, Vec3 2 0 0, Vec3 3 0 0]"
proof -
  have "processed (snd (clearArea testBot 3 0 0 0 0 0 (testWorld [Vec3 0 0 0, Vec3 1 0 0] [] [] [Vec3 1 0 0]))) =
     [Vec3 0 0 0, Vec3 1 0 0, Vec3 2 0 0, Vec3 3 0 0]"
    using clearArea_counts [of testBot 3 0 0 0 0 0 "testWorld [Vec3 0 0 0, Vec3 1 0 0] [] [] [Vec3 1 0 0]",
        THEN conjunct2, THEN conjunct1]
    by (simp add: upto_rec1)
  moreover have "blocksDug (snd (clearArea testBot 3 0 0 0 0 0 (testWorld [Vec3 0 0 0, Vec3 1 0 0] [] [] [Vec3 1 0 0]))) = 1"
    by code_simp
  moreover have "blocksFailed (snd (clearArea testBot 3 0 0 0 0 0 (testWorld [Vec3 0 0 0, Vec3 1 0 0] [] [] [Vec3 1 0 0]))) = 1"
    by code_simp
  moreover have "fst (clearArea testBot 3 0 0 0 0 0 (testWorld [Vec3 0 0 0, Vec3 1 0 0] [] [] [Vec3 1 0 0])) =
     createResponse ''Area clearing completed! Dug 1 blocks. 1 blocks failed to dig.''"
    by code_simp
  moreover have "queried (trace (agent (snd (clearArea testBot 3 0 0 0 0 0 (testWorld [Vec3 0 0 0, Vec3 1 0 0] [] [] [Vec3 1 0 0]))))) =
     [Vec3 0 0 0, Vec3 1 0 0, Vec3 2 0 0, Vec3 3 0 0]"
    by code_simp
  ultimately show ?thesis by blast
qed

subsection \<open>The counters and the reported total\<close>

text \<open>
  The total in the summary of fill-area is the number of coordinates processed, and so is
  that of build-wall when no dimension is negative.
\<close>

lemma fillArea_reported_total:
  "fst (fillArea bot' x1 y1 z1 x2 y2 z2 blockType e) =
     createResponse
       (''Area filling completed! Placed '' @
        toString (blocksPlaced (snd (fillArea bot' x1 y1 z1 x2 y2 z2 blockType e))) @ ''/'' @
        toString (int (length (processed (snd (fillArea bot' x1 y1 z1 x2 y2 z2 blockType e))))) @
        '' blocks. '' @
        toString (blocksFailed (snd (fillArea bot' x1 y1 z1 x2 y2 z2 blockType e))) @
        '' blocks failed (already occupied or no support).'')"
proof -
  have "length (processed (snd (fillArea bot' x1 y1 z1 x2 y2 z2 blockType e))) =
      nat (max x1 x2 - min x1 x2 + 1) * (nat (max y1 y2 - min y1 y2 + 1) * nat (max z1 z2 - min z1 z2 + 1))"
    by (simp add: fillArea_processed concat3_product)
  moreover have "0 \<le> max x1 x2 - min x1 x2 + 1" "0 \<le> max y1 y2 - min y1 y2 + 1"
    "0 \<le> max z1 z2 - min z1 z2 + 1"
    by (simp_all add: max_def min_def)
  ultimately have len: "int (length (processed (snd (fillArea bot' x1 y1 z1 x2 y2 z2 blockType e)))) =
      (max x1 x2 - min x1 x2 + 1) * (max y1 y2 - min y1 y2 + 1) * (max z1 z2 - min z1 z2 + 1)"
    by simp
  show ?thesis
    unfolding len by (simp add: fillArea_def Let_def)
qed

lemma buildWall_reported_total:
  assumes "0 \<le> length'" and "0 \<le> height" and "0 \<le> defaultTo 1 thickness'"
  shows "fst (buildWall bot' startX startY startZ d length' height thickness' material e) =
     createResponse
       (''Wall building completed! Built a '' @ toString length' @ ''x'' @ toString height @ ''x'' @
        toString (defaultTo 1 thickness') @ '' wall facing '' @ compassName d @ ''. '' @
        ''Placed '' @
        toString (blocksPlaced (snd (buildWall bot' startX startY startZ d length' height thickness' material e))) @
        ''/'' @
        toString (int (length (processed
          (snd (buildWall bot' startX startY startZ d length' height thickness' material e))))) @
        '' blocks. '' @
        toString (blocksFailed (snd (buildWall bot' startX startY startZ d length' height thickness' material e))) @
        '' blocks failed.'')"
proof -
  have "length (processed (snd (buildWall bot' startX startY startZ d length' height thickness' material e))) =
      nat length' * (nat height * nat (defaultTo 1 thickness'))"
    by (simp add: buildWall_processed concat3_product)
  with assms have len:
    "int (length (processed (snd (buildWall bot' startX startY startZ d length' height thickness' material e)))) =
      length' * height * defaultTo 1 thickness'"
    by simp
  show ?thesis
    unfolding len by (simp add: buildWall_def Let_def)
qed

text \<open>
  C1. In every placement handler \<^verbatim>\<open>blocksPlaced + blocksFailed\<close> is the number of coordinates
  processed (\<open>placed_plus_failed\<close>), and fill-area reports that number as its total. The
  total that build-floor reports is \<^verbatim>\<open>width * length\<close>, which is not that number when width
  or length is even: over a 3 by 3 platform of stone, a floor of width 2 and length 2 is
  attempted at 9 coordinates, all 9 blocks are placed, and the summary reads 9 of 4.
\<close>

theorem buildFloor_reported_total:
  "fst (buildFloor testBot 0 64 0 2 2 None
     (testWorld [Vec3 (-1) 63 (-1), Vec3 (-1) 63 0, Vec3 (-1) 63 1, Vec3 0 63 (-1), Vec3 0 63 0,
                 Vec3 0 63 1, Vec3 1 63 (-1), Vec3 1 63 0, Vec3 1 63 1] [] [] [])) =
     createResponse
       ''Floor building completed! Placed 9/4 blocks. 0 blocks failed (already occupied or no support).'' \<and>
   length (processed (snd (buildFloor testBot 0 64 0 2 2 None
     (testWorld [Vec3 (-1) 63 (-1), Vec3 (-1) 63 0, Vec3 (-1) 63 1, Vec3 0 63 (-1), Vec3 0 63 0,
                 Vec3 0 63 1, Vec3 1 63 (-1), Vec3 1 63 0, Vec3 1 63 1] [] [] [])))) = 9"
  by code_simp

end
